theory Spec2Isabelle
  imports Main "HOL-Library.AList"
begin

section \<open>MessageBufferService: recent cache, write queue and flush\<close>

text \<open>
  The buffer of \<^verbatim>\<open>message-buffer.service.ts\<close>. Time and the generated message id
  are inputs of \<open>addMessage\<close> (\<^verbatim>\<open>new Date()\<close>, \<^verbatim>\<open>generateId()\<close>).
  The four configuration fields of the class are a record, so that a scenario can run with
  another cache capacity; \<open>default_config\<close> carries the values of the source.
\<close>

text \<open>
  The text of a message is a JavaScript string whose length and white space matter: it is
  the list of its UTF-16 code units. \<open>units\<close> gives the code units of an ASCII literal.
  The other strings are only compared.
\<close>

type_synonym code_units = "nat list"

definition units :: "string \<Rightarrow> code_units" where
  "units str = map of_char str"

record pending_message =
  pm_id :: string
  pm_roomId :: string
  pm_userId :: string
  pm_username :: string
  pm_message :: code_units
  pm_type :: string
  pm_timestamp :: int

text \<open>A stored document of the \<^verbatim>\<open>chat_messages\<close> collection.\<close>

record chat_message =
  doc_id :: string
  doc_roomId :: string
  doc_userId :: string
  doc_username :: string
  doc_message :: code_units
  doc_type :: string
  doc_timestamp :: int
  doc_isDeleted :: bool

record config =
  FLUSH_INTERVAL :: nat
  BATCH_SIZE :: nat
  MAX_RECENT_MESSAGES :: nat
  EMERGENCY_FLUSH_SIZE :: nat

definition default_config :: config where
  "default_config =
     \<lparr>FLUSH_INTERVAL = 30000, BATCH_SIZE = 100,
      MAX_RECENT_MESSAGES = 100, EMERGENCY_FLUSH_SIZE = 1000\<rparr>"

text \<open>
  \<open>inFlight\<close> holds the batches that \<open>flushToDatabase\<close> has spliced off the queue and
  handed to \<^verbatim>\<open>insertMany\<close>, whose promise has not settled yet. \<open>chatMessages\<close> is the
  durable collection and \<open>insertedCount\<close> the number of documents it ever received: the
  store gives the \<open>n\<close>-th of them the id \<open>oid n\<close>, for a function \<open>oid\<close> that is a
  parameter of the flush.
\<close>

record message_buffer =
  recentMessages :: "string \<rightharpoonup> pending_message list"
  pendingWrites :: "pending_message list"
  inFlight :: "pending_message list list"
  chatMessages :: "chat_message list"
  insertedCount :: nat

definition empty_buffer :: message_buffer where
  "empty_buffer =
     \<lparr>recentMessages = Map.empty, pendingWrites = [], inFlight = [],
      chatMessages = [], insertedCount = 0\<rparr>"

text \<open>
  \<^verbatim>\<open>Array.prototype.slice(start)\<close>: a negative start counts from the end, and both are
  clamped to the array.
\<close>

definition slice_from :: "int \<Rightarrow> 'a list \<Rightarrow> 'a list" where
  "slice_from start xs =
     (let len = int (length xs);
          k = (if start < 0 then max (len + start) 0 else min start len)
      in drop (nat k) xs)"

definition recent_of :: "message_buffer \<Rightarrow> string \<Rightarrow> pending_message list" where
  "recent_of s room = (case recentMessages s room of None \<Rightarrow> [] | Some ms \<Rightarrow> ms)"

text \<open>The synchronous part of \<open>flushToDatabase\<close>, up to the \<^verbatim>\<open>await\<close>.\<close>

definition flush_start :: "config \<Rightarrow> message_buffer \<Rightarrow> message_buffer" where
  "flush_start cfg s =
     (if pendingWrites s = [] then s
      else s\<lparr>pendingWrites := drop (BATCH_SIZE cfg) (pendingWrites s),
             inFlight := inFlight s @ [take (BATCH_SIZE cfg) (pendingWrites s)]\<rparr>)"

definition mongoMessage :: "string \<Rightarrow> pending_message \<Rightarrow> chat_message" where
  "mongoMessage i msg =
     \<lparr>doc_id = i, doc_roomId = pm_roomId msg, doc_userId = pm_userId msg,
      doc_username = pm_username msg, doc_message = pm_message msg,
      doc_type = pm_type msg, doc_timestamp = pm_timestamp msg, doc_isDeleted = False\<rparr>"

text \<open>
  The schema of \<^verbatim>\<open>chat-message.schema.ts\<close>: room, user, name and message are required
  (an empty string does not do), the message has at most 500 code units, and the type is
  one of three.
\<close>

definition schema_valid :: "pending_message \<Rightarrow> bool" where
  "schema_valid msg =
     (pm_roomId msg \<noteq> [] \<and> pm_userId msg \<noteq> [] \<and> pm_username msg \<noteq> [] \<and>
      pm_message msg \<noteq> [] \<and> length (pm_message msg) \<le> 500 \<and>
      pm_type msg \<in> set [''text'', ''emoji'', ''system''])"

text \<open>
  One call of \<^verbatim>\<open>insertMany(docs, { ordered: false })\<close>. The documents that fail the
  schema are left out without an error. The call then resolves, with every other document
  written, or it rejects, and then the store has written those of the other documents that
  the list of marks selects (none, some or all of them).
\<close>

datatype insert_outcome = Resolved | Rejected "bool list"

fun written :: "insert_outcome \<Rightarrow> pending_message list \<Rightarrow> pending_message list" where
  "written Resolved batch = filter schema_valid batch"
| "written (Rejected marks) batch =
     map snd (filter (\<lambda>(w, msg). w \<and> schema_valid msg) (zip marks batch))"

definition insertMany ::
  "(nat \<Rightarrow> string) \<Rightarrow> nat \<Rightarrow> insert_outcome \<Rightarrow> pending_message list \<Rightarrow> chat_message list" where
  "insertMany oid n outcome batch =
     map (\<lambda>(k, msg). mongoMessage (oid k) msg)
       (zip [n ..< n + length (written outcome batch)] (written outcome batch))"

text \<open>
  The rest of \<open>flushToDatabase\<close>, once \<^verbatim>\<open>insertMany\<close> has settled for the batch
  \<open>messagesToWrite\<close>: the \<^verbatim>\<open>catch\<close> branch puts the whole batch back, whatever the
  store has written of it.
\<close>

definition flush_settle ::
  "config \<Rightarrow> (nat \<Rightarrow> string) \<Rightarrow> insert_outcome \<Rightarrow> pending_message list \<Rightarrow> message_buffer
     \<Rightarrow> message_buffer" where
  "flush_settle cfg oid outcome messagesToWrite s =
     (let stored =
            s\<lparr>chatMessages := chatMessages s @ insertMany oid (insertedCount s) outcome messagesToWrite,
              insertedCount := insertedCount s + length (written outcome messagesToWrite)\<rparr>
      in case outcome of
           Resolved \<Rightarrow> stored
         | Rejected marks \<Rightarrow>
             (let q = messagesToWrite @ pendingWrites stored in
              if length q > EMERGENCY_FLUSH_SIZE cfg * 2
              then stored\<lparr>pendingWrites := drop (length q - EMERGENCY_FLUSH_SIZE cfg) q\<rparr>
              else stored\<lparr>pendingWrites := q\<rparr>))"

text \<open>An awaited \<open>flushToDatabase\<close>: nothing runs between the splice and the outcome.\<close>

definition flushToDatabase ::
  "config \<Rightarrow> (nat \<Rightarrow> string) \<Rightarrow> insert_outcome \<Rightarrow> message_buffer \<Rightarrow> message_buffer" where
  "flushToDatabase cfg oid outcome s =
     (if pendingWrites s = [] then s
      else flush_settle cfg oid outcome (take (BATCH_SIZE cfg) (pendingWrites s))
             (s\<lparr>pendingWrites := drop (BATCH_SIZE cfg) (pendingWrites s)\<rparr>))"


definition addMessage ::
  "config \<Rightarrow> string \<Rightarrow> int \<Rightarrow> string \<Rightarrow> string \<Rightarrow> string \<Rightarrow> code_units \<Rightarrow> string
     \<Rightarrow> message_buffer \<Rightarrow> pending_message \<times> message_buffer" where
  "addMessage cfg newId now room user name body kind s =
     (let messageData =
            \<lparr>pm_id = newId, pm_roomId = room, pm_userId = user, pm_username = name,
             pm_message = body, pm_type = kind, pm_timestamp = now\<rparr>;
          roomMessages = recent_of s room @ [messageData];
          kept = (if length roomMessages > MAX_RECENT_MESSAGES cfg
                  then drop (length roomMessages - MAX_RECENT_MESSAGES cfg) roomMessages
                  else roomMessages);
          s1 = s\<lparr>recentMessages := (recentMessages s)(room \<mapsto> kept),
                 pendingWrites := pendingWrites s @ [messageData]\<rparr>;
          s2 = (if length (pendingWrites s1) \<ge> EMERGENCY_FLUSH_SIZE cfg
                then flush_start cfg s1 else s1)
      in (messageData, s2))"

definition getRecentMessages ::
  "string \<Rightarrow> int \<Rightarrow> message_buffer \<Rightarrow> pending_message list" where
  "getRecentMessages room limit s = rev (slice_from (- limit) (recent_of s room))"


definition forceFlush ::
  "config \<Rightarrow> (nat \<Rightarrow> string) \<Rightarrow> insert_outcome \<Rightarrow> message_buffer \<Rightarrow> message_buffer" where
  "forceFlush cfg oid outcome s =
     (if pendingWrites s = [] then s else flushToDatabase cfg oid outcome s)"

text \<open>
  \<open>onApplicationShutdown\<close>: the \<^verbatim>\<open>while\<close> loop over awaited flushes. \<open>store k\<close> is the
  outcome of the \<open>k\<close>-th insert the store is asked for; \<open>None\<close> is a loop that never ends.
\<close>

partial_function (option) onApplicationShutdown ::
  "config \<Rightarrow> (nat \<Rightarrow> string) \<Rightarrow> (nat \<Rightarrow> insert_outcome) \<Rightarrow> nat \<Rightarrow> message_buffer
     \<Rightarrow> message_buffer option" where
  "onApplicationShutdown cfg oid store k s =
     (if pendingWrites s = [] then Some s
      else onApplicationShutdown cfg oid store (Suc k)
             (flushToDatabase cfg oid (store k) s))"

text \<open>
  The failure branch as the specification words it: only the entries beyond twice the
  emergency threshold are dropped.
\<close>

definition requeue_spec :: "config \<Rightarrow> pending_message list \<Rightarrow> message_buffer \<Rightarrow> message_buffer" where
  "requeue_spec cfg messagesToWrite s =
     (let q = messagesToWrite @ pendingWrites s in
      if length q > EMERGENCY_FLUSH_SIZE cfg * 2
      then s\<lparr>pendingWrites := drop (length q - EMERGENCY_FLUSH_SIZE cfg * 2) q\<rparr>
      else s\<lparr>pendingWrites := q\<rparr>)"



text \<open>
  What a document holds of a message, and what the source copies into it: the six fields
  of the message other than its buffer id, and \<open>isDeleted\<close> false.
\<close>

definition stored_fields ::
  "chat_message \<Rightarrow> string \<times> string \<times> string \<times> code_units \<times> string \<times> int \<times> bool" where
  "stored_fields d =
     (doc_roomId d, doc_userId d, doc_username d, doc_message d, doc_type d,
      doc_timestamp d, doc_isDeleted d)"

definition message_fields ::
  "pending_message \<Rightarrow> string \<times> string \<times> string \<times> code_units \<times> string \<times> int \<times> bool" where
  "message_fields msg =
     (pm_roomId msg, pm_userId msg, pm_username msg, pm_message msg, pm_type msg,
      pm_timestamp msg, False)"

definition unary_oid :: "nat \<Rightarrow> string" where
  "unary_oid n = replicate n (CHR ''1'')"

definition numbered :: "string \<Rightarrow> nat \<Rightarrow> pending_message" where
  "numbered room n =
     \<lparr>pm_id = unary_oid n, pm_roomId = room, pm_userId = ''u1'', pm_username = ''Ann'',
      pm_message = units ''hi'', pm_type = ''text'', pm_timestamp = int n\<rparr>"

definition always_fails :: "nat \<Rightarrow> insert_outcome" where
  "always_fails k = Rejected []"

definition always_succeeds :: "nat \<Rightarrow> insert_outcome" where
  "always_succeeds k = Resolved"

text \<open>A run of \<open>addMessage\<close> calls on one room: each entry is (id, time, user, name, body, kind).\<close>

fun addMessages ::
  "config \<Rightarrow> string \<Rightarrow> (string \<times> int \<times> string \<times> string \<times> code_units \<times> string) list
     \<Rightarrow> message_buffer \<Rightarrow> message_buffer" where
  "addMessages cfg room [] s = s"
| "addMessages cfg room ((i, t, u, n, b, k) # rest) s =
     addMessages cfg room rest (snd (addMessage cfg i t room u n b k s))"

definition sent :: "string \<Rightarrow> string \<times> int \<times> string \<times> string \<times> code_units \<times> string
     \<Rightarrow> pending_message" where
  "sent room e =
     (case e of (i, t, u, n, b, k) \<Rightarrow>
        \<lparr>pm_id = i, pm_roomId = room, pm_userId = u, pm_username = n,
         pm_message = b, pm_type = k, pm_timestamp = t\<rparr>)"



datatype exception = NotFoundException | BadRequestException


section \<open>SessionManager: sessions, room membership, typing and rate limits\<close>

text \<open>
  \<open>userSessions\<close> is a JavaScript \<^verbatim>\<open>Map\<close>, iterated in insertion order by the loops that
  stop at the first session of a user: an association list, where \<open>AList.update\<close> replaces
  the value of a present key in place and appends a new key, as \<^verbatim>\<open>Map.set\<close> does. The
  bodies run inside \<^verbatim>\<open>ErrorHandler.handle\<close> or a \<^verbatim>\<open>try\<close>; nothing in them throws on
  these maps, so the handlers' fallbacks do not appear.
\<close>

record user_session =
  userId :: string
  username :: string
  socketId :: string
  roomId :: string
  joinTime :: int
  lastActivity :: int

record session_manager =
  userSessions :: "(string \<times> user_session) list"
  userRooms :: "string \<rightharpoonup> string"
  roomUsers :: "string \<rightharpoonup> string set"
  roomMessageCounts :: "string \<rightharpoonup> nat"
  typingUsers :: "string \<rightharpoonup> string set"
  rateLimitMap :: "string \<rightharpoonup> int list"

definition empty_sessions :: session_manager where
  "empty_sessions =
     \<lparr>userSessions = [], userRooms = Map.empty, roomUsers = Map.empty,
      roomMessageCounts = Map.empty, typingUsers = Map.empty, rateLimitMap = Map.empty\<rparr>"

text \<open>\<^verbatim>\<open>m.get(k)?.delete(v)\<close> and \<^verbatim>\<open>if (!m.has(k)) m.set(k, new Set()); m.get(k).add(v)\<close>.\<close>

definition set_delete :: "(string \<rightharpoonup> string set) \<Rightarrow> string \<Rightarrow> string \<Rightarrow> (string \<rightharpoonup> string set)" where
  "set_delete m k v = (case m k of None \<Rightarrow> m | Some S \<Rightarrow> m(k \<mapsto> S - {v}))"

definition set_add :: "(string \<rightharpoonup> string set) \<Rightarrow> string \<Rightarrow> string \<Rightarrow> (string \<rightharpoonup> string set)" where
  "set_add m k v = m(k \<mapsto> insert v (case m k of None \<Rightarrow> {} | Some S \<Rightarrow> S))"

definition members :: "(string \<rightharpoonup> string set) \<Rightarrow> string \<Rightarrow> string set" where
  "members m k = (case m k of None \<Rightarrow> {} | Some S \<Rightarrow> S)"

text \<open>The loop of \<open>removeUserFromAllRooms\<close>: delete the first session of the user, then break.\<close>

fun delete_first_session :: "string \<Rightarrow> (string \<times> user_session) list \<Rightarrow> (string \<times> user_session) list" where
  "delete_first_session uid [] = []"
| "delete_first_session uid ((k, session) # rest) =
     (if userId session = uid then rest else (k, session) # delete_first_session uid rest)"

text \<open>\<^verbatim>\<open>if (roomId)\<close> is false for a user without a room and for the empty string.\<close>

definition removeUserFromAllRooms :: "string \<Rightarrow> session_manager \<Rightarrow> session_manager" where
  "removeUserFromAllRooms uid s =
     (let s1 = (case userRooms s uid of
                  None \<Rightarrow> s
                | Some room \<Rightarrow>
                    if room \<noteq> [] then
                      s\<lparr>roomUsers := set_delete (roomUsers s) room uid,
                        typingUsers := set_delete (typingUsers s) room uid\<rparr>
                    else s)
      in s1\<lparr>userSessions := delete_first_session uid (userSessions s1),
             userRooms := (userRooms s1)(uid := None)\<rparr>)"

definition addUserToRoom ::
  "string \<Rightarrow> string \<Rightarrow> string \<Rightarrow> string \<Rightarrow> int \<Rightarrow> session_manager \<Rightarrow> session_manager" where
  "addUserToRoom sock uid name room now s =
     (let s1 = removeUserFromAllRooms uid s;
          userSession = \<lparr>userId = uid, username = name, socketId = sock, roomId = room,
                         joinTime = now, lastActivity = now\<rparr>
      in s1\<lparr>userSessions := AList.update sock userSession (userSessions s1),
             userRooms := (userRooms s1)(uid \<mapsto> room),
             roomUsers := set_add (roomUsers s1) room uid\<rparr>)"

definition removeUserFromRoom ::
  "string \<Rightarrow> session_manager \<Rightarrow> user_session option \<times> session_manager" where
  "removeUserFromRoom sock s =
     (case map_of (userSessions s) sock of
        None \<Rightarrow> (None, s)
      | Some userSession \<Rightarrow>
          (Some userSession,
           s\<lparr>userSessions := AList.delete sock (userSessions s),
             userRooms := (userRooms s)(userId userSession := None),
             roomUsers := set_delete (roomUsers s) (roomId userSession) (userId userSession),
             typingUsers := set_delete (typingUsers s) (roomId userSession) (userId userSession)\<rparr>))"

definition getUserBySocketId :: "string \<Rightarrow> session_manager \<Rightarrow> user_session option" where
  "getUserBySocketId sock s = map_of (userSessions s) sock"

definition getUserSession :: "string \<Rightarrow> session_manager \<Rightarrow> user_session option" where
  "getUserSession uid s = find (\<lambda>session. userId session = uid) (map snd (userSessions s))"

definition getRoomUserCount :: "string \<Rightarrow> session_manager \<Rightarrow> nat" where
  "getRoomUserCount room s = card (members (roomUsers s) room)"

fun touch_first_session :: "string \<Rightarrow> int \<Rightarrow> (string \<times> user_session) list \<Rightarrow> (string \<times> user_session) list" where
  "touch_first_session uid now [] = []"
| "touch_first_session uid now ((k, session) # rest) =
     (if userId session = uid then (k, session\<lparr>lastActivity := now\<rparr>) # rest
      else (k, session) # touch_first_session uid now rest)"

definition updateUserActivity :: "string \<Rightarrow> int \<Rightarrow> session_manager \<Rightarrow> session_manager" where
  "updateUserActivity uid now s = s\<lparr>userSessions := touch_first_session uid now (userSessions s)\<rparr>"

definition incrementMessageCount :: "string \<Rightarrow> session_manager \<Rightarrow> session_manager" where
  "incrementMessageCount room s =
     s\<lparr>roomMessageCounts := (roomMessageCounts s)
          (room \<mapsto> (case roomMessageCounts s room of None \<Rightarrow> 0 | Some c \<Rightarrow> c) + 1)\<rparr>"

definition cleanupInactiveUsers :: "int \<Rightarrow> int \<Rightarrow> session_manager \<Rightarrow> session_manager" where
  "cleanupInactiveUsers inactiveThresholdMs now s =
     (let sessionsToRemove =
            map fst (filter (\<lambda>(k, session). now - lastActivity session > inactiveThresholdMs)
                       (userSessions s))
      in foldl (\<lambda>s' k. snd (removeUserFromRoom k s')) s sessionsToRemove)"

definition checkRateLimit ::
  "string \<Rightarrow> int \<Rightarrow> int \<Rightarrow> int \<Rightarrow> session_manager \<Rightarrow> bool \<times> session_manager" where
  "checkRateLimit sock maxRequests windowMs now s =
     (let requests = (case rateLimitMap s sock of None \<Rightarrow> [] | Some r \<Rightarrow> r);
          recentRequests = filter (\<lambda>time. now - time < windowMs) requests
      in if int (length recentRequests) \<ge> maxRequests then (False, s)
         else (True, s\<lparr>rateLimitMap := (rateLimitMap s)(sock \<mapsto> recentRequests @ [now])\<rparr>))"

definition addTypingUser :: "string \<Rightarrow> string \<Rightarrow> session_manager \<Rightarrow> session_manager" where
  "addTypingUser room uid s = s\<lparr>typingUsers := set_add (typingUsers s) room uid\<rparr>"

definition removeTypingUser :: "string \<Rightarrow> string \<Rightarrow> session_manager \<Rightarrow> session_manager" where
  "removeTypingUser room uid s = s\<lparr>typingUsers := set_delete (typingUsers s) room uid\<rparr>"

definition disconnectUser :: "string \<Rightarrow> session_manager \<Rightarrow> session_manager" where
  "disconnectUser uid s =
     (case find (\<lambda>(k, session). userId session = uid) (userSessions s) of
        None \<Rightarrow> s
      | Some (k, session) \<Rightarrow> snd (removeUserFromRoom k s))"

definition getUserSocketIds :: "string \<Rightarrow> session_manager \<Rightarrow> string list" where
  "getUserSocketIds uid s =
     map fst (filter (\<lambda>(k, session). userId session = uid) (userSessions s))"

text \<open>The operations that change the registry, and their runs from the empty registry.\<close>

datatype registry_op =
    AddUserToRoom string string string string int
  | RemoveUserFromRoom string
  | RemoveUserFromAllRooms string
  | UpdateUserActivity string int
  | IncrementMessageCount string
  | CleanupInactiveUsers int int
  | CheckRateLimit string int int int
  | AddTypingUser string string
  | RemoveTypingUser string string
  | DisconnectUser string

fun apply_op :: "registry_op \<Rightarrow> session_manager \<Rightarrow> session_manager" where
  "apply_op (AddUserToRoom sock uid name room now) s = addUserToRoom sock uid name room now s"
| "apply_op (RemoveUserFromRoom sock) s = snd (removeUserFromRoom sock s)"
| "apply_op (RemoveUserFromAllRooms uid) s = removeUserFromAllRooms uid s"
| "apply_op (UpdateUserActivity uid now) s = updateUserActivity uid now s"
| "apply_op (IncrementMessageCount room) s = incrementMessageCount room s"
| "apply_op (CleanupInactiveUsers threshold now) s = cleanupInactiveUsers threshold now s"
| "apply_op (CheckRateLimit sock maxRequests windowMs now) s =
     snd (checkRateLimit sock maxRequests windowMs now s)"
| "apply_op (AddTypingUser room uid) s = addTypingUser room uid s"
| "apply_op (RemoveTypingUser room uid) s = removeTypingUser room uid s"
| "apply_op (DisconnectUser uid) s = disconnectUser uid s"

definition run_ops :: "registry_op list \<Rightarrow> session_manager" where
  "run_ops ops = foldl (\<lambda>s op. apply_op op s) empty_sessions ops"

text \<open>
  The rate limiter as the specification words it: the timestamps within the closed
  window \<open>[now - windowMs, now]\<close> are retained, and the call is admitted when fewer than
  \<open>maxRequests\<close> of them remain.
\<close>

definition checkRateLimit_spec ::
  "string \<Rightarrow> int \<Rightarrow> int \<Rightarrow> int \<Rightarrow> session_manager \<Rightarrow> bool \<times> session_manager" where
  "checkRateLimit_spec sock maxRequests windowMs now s =
     (let requests = (case rateLimitMap s sock of None \<Rightarrow> [] | Some r \<Rightarrow> r);
          retained = filter (\<lambda>time. now - windowMs \<le> time \<and> time \<le> now) requests
      in if int (length retained) < maxRequests
         then (True, s\<lparr>rateLimitMap := (rateLimitMap s)(sock \<mapsto> retained @ [now])\<rparr>)
         else (False, s))"

text \<open>A run of \<open>checkRateLimit\<close> calls of one connection at the given times: the answers.\<close>

fun rate_calls ::
  "string \<Rightarrow> int \<Rightarrow> int \<Rightarrow> int list \<Rightarrow> session_manager \<Rightarrow> bool list" where
  "rate_calls sock maxRequests windowMs [] s = []"
| "rate_calls sock maxRequests windowMs (now # stamps) s =
     (case checkRateLimit sock maxRequests windowMs now s of
        (ok, s') \<Rightarrow> ok # rate_calls sock maxRequests windowMs stamps s')"

section \<open>ChatGateway.handleMessage, AdminService.banUser and ChatService.endRoom\<close>

text \<open>
  The user collection is read by \<^verbatim>\<open>findOne({ studentId })\<close> only: a map from the student
  id. What the server emits is recorded in order, each event with its addressee; the
  texts shown to people are left out of the events, their data kept.
\<close>

record user_doc =
  studentId :: string
  fullName :: string
  isActive :: bool
  isBanned :: bool
  bannedReason :: "string option"
  bannedAt :: "int option"
  bannedBy :: "string option"

record banned_status =
  bs_isBanned :: bool
  bs_bannedReason :: "string option"
  bs_bannedBy :: "string option"

record live_room =
  lr_isActive :: bool
  lr_endTime :: "int option"
  lr_viewerCount :: nat

datatype target = ToAll | ToSocket string | ToRoom string

datatype error_event =
  RateLimitExceeded | SessionNotFound | AuthMismatch | MessageTooLong

datatype event =
    ErrorEvent error_event
  | UserBannedEvent "string option" "string option"
  | AdminUserBannedEvent string "string option" "string option" int
  | NewMessageEvent pending_message

record app_state =
  sessions :: session_manager
  buffer :: message_buffer
  users :: "string \<rightharpoonup> user_doc"
  liveRooms :: "string \<rightharpoonup> live_room"
  serverSet :: bool
  disconnected :: "string set"
  emitted :: "(target \<times> event) list"

record chat_message_dto =
  dto_roomId :: string
  dto_message :: code_units
  dto_type :: "string option"

record ban_user_dto =
  ban_userId :: string
  ban_reason :: "string option"
  ban_bannedBy :: "string option"

definition emit :: "target \<Rightarrow> event \<Rightarrow> app_state \<Rightarrow> app_state" where
  "emit to ev st = st\<lparr>emitted := emitted st @ [(to, ev)]\<rparr>"

definition checkUserBannedStatus :: "string \<Rightarrow> (string \<rightharpoonup> user_doc) \<Rightarrow> banned_status" where
  "checkUserBannedStatus uid us =
     (case us uid of
        None \<Rightarrow> \<lparr>bs_isBanned = False, bs_bannedReason = None, bs_bannedBy = None\<rparr>
      | Some user \<Rightarrow>
          \<lparr>bs_isBanned = isBanned user, bs_bannedReason = bannedReason user,
           bs_bannedBy = bannedBy user\<rparr>)"

text \<open>
  \<^verbatim>\<open>String.prototype.trim\<close> strips the white space and the line terminators of
  ECMAScript from both ends: tab, line feed, vertical tab, form feed, carriage return,
  space, no-break space, U+1680, U+2000 to U+200A, U+2028, U+2029, U+202F, U+205F, U+3000
  and U+FEFF.
\<close>

definition is_space :: "nat \<Rightarrow> bool" where
  "is_space c =
     (c \<in> set [0x09, 0x0A, 0x0B, 0x0C, 0x0D, 0x20, 0xA0, 0x1680,
                 0x2000, 0x2001, 0x2002, 0x2003, 0x2004, 0x2005, 0x2006, 0x2007, 0x2008,
                 0x2009, 0x200A, 0x2028, 0x2029, 0x202F, 0x205F, 0x3000, 0xFEFF])"

definition trim :: "code_units \<Rightarrow> code_units" where
  "trim str = rev (dropWhile is_space (rev (dropWhile is_space str)))"

text \<open>
  \<open>handleMessage\<close> for the connection \<open>client\<close> whose authenticated user is \<open>uid\<close>;
  \<open>maxRequests\<close> and \<open>windowMs\<close> are the gateway's rate limit settings.
\<close>

definition handleMessage ::
  "config \<Rightarrow> int \<Rightarrow> int \<Rightarrow> string \<Rightarrow> int \<Rightarrow> string \<Rightarrow> string \<Rightarrow> chat_message_dto
     \<Rightarrow> app_state \<Rightarrow> app_state" where
  "handleMessage cfg maxRequests windowMs newId now client uid data st =
     (case checkRateLimit client maxRequests windowMs now (sessions st) of (allowed, sm1) \<Rightarrow>
      let st1 = st\<lparr>sessions := sm1\<rparr> in
      if \<not> allowed then emit (ToSocket client) (ErrorEvent RateLimitExceeded) st1
      else
        let bannedStatus = checkUserBannedStatus uid (users st1) in
        if bs_isBanned bannedStatus then
          (let st2 = emit (ToSocket client)
                       (UserBannedEvent (bs_bannedReason bannedStatus) (bs_bannedBy bannedStatus)) st1;
               st3 = st2\<lparr>sessions := snd (removeUserFromRoom client (sessions st2))\<rparr>
           in st3\<lparr>disconnected := insert client (disconnected st3)\<rparr>)
        else
          (case getUserBySocketId client (sessions st1) of
             None \<Rightarrow> emit (ToSocket client) (ErrorEvent SessionNotFound) st1
           | Some userSession \<Rightarrow>
               if uid \<noteq> userId userSession
               then emit (ToSocket client) (ErrorEvent AuthMismatch) st1
               else if dto_message data = [] \<or> trim (dto_message data) = [] then st1
               else if length (dto_message data) > 1000
               then emit (ToSocket client) (ErrorEvent MessageTooLong) st1
               else
                 (case addMessage cfg newId now (roomId userSession) (userId userSession)
                         (username userSession) (trim (dto_message data))
                         (case dto_type data of None \<Rightarrow> ''text'' | Some k \<Rightarrow> k) (buffer st1)
                  of (savedMessage, buf) \<Rightarrow>
                    let sm2 = updateUserActivity (userId userSession) now (sessions st1);
                        sm3 = incrementMessageCount (roomId userSession) sm2;
                        sm4 = removeTypingUser (roomId userSession) (userId userSession) sm3
                    in emit (ToRoom (roomId userSession)) (NewMessageEvent savedMessage)
                         (st1\<lparr>sessions := sm4, buffer := buf\<rparr>))))"

text \<open>\<open>AdminService.banUser\<close>; \<^verbatim>\<open>reason || '...'\<close> replaces a missing or empty reason.\<close>

definition banUser :: "ban_user_dto \<Rightarrow> int \<Rightarrow> app_state \<Rightarrow> (exception + unit) \<times> app_state" where
  "banUser dto now st =
     (case users st (ban_userId dto) of
        None \<Rightarrow> (Inl NotFoundException, st)
      | Some user \<Rightarrow>
          if isBanned user then (Inl BadRequestException, st)
          else
            (let st1 = st\<lparr>users := (users st)(ban_userId dto \<mapsto>
                          user\<lparr>isBanned := True,
                               bannedReason :=
                                 Some (case ban_reason dto of
                                         None \<Rightarrow> ''Violated community guidelines''
                                       | Some r \<Rightarrow>
                                           if r = [] then ''Violated community guidelines'' else r),
                               bannedAt := Some now,
                               bannedBy := ban_bannedBy dto\<rparr>)\<rparr>;
                 st2 = st1\<lparr>sessions := disconnectUser (ban_userId dto) (sessions st1)\<rparr>;
                 st3 = (if serverSet st2 then
                          (let st' = emit ToAll
                                       (AdminUserBannedEvent (ban_userId dto) (ban_reason dto)
                                          (ban_bannedBy dto) now) st2;
                               userSocketIds = getUserSocketIds (ban_userId dto) (sessions st')
                           in foldl (\<lambda>acc sock.
                                       emit (ToSocket sock)
                                         (UserBannedEvent (ban_reason dto) (ban_bannedBy dto)) acc)
                                st' userSocketIds)
                        else st2)
             in (Inr (), st3)))"

text \<open>The connections that were sent a \<^verbatim>\<open>user:banned\<close> notice.\<close>

definition banned_notices :: "app_state \<Rightarrow> string list" where
  "banned_notices st =
     concat (map (\<lambda>(to, ev). case (to, ev) of
                                (ToSocket sock, UserBannedEvent r b) \<Rightarrow> [sock]
                              | _ \<Rightarrow> []) (emitted st))"


section \<open>Auxiliary predicates and the concrete states of the scenarios\<close>


definition three_sends :: "(string \<times> int \<times> string \<times> string \<times> code_units \<times> string) list" where
  "three_sends =
     [(''a'', 1, ''u1'', ''Ann'', units ''hello'', ''text''),
      (''b'', 2, ''u1'', ''Ann'', units ''world'', ''text''),
      (''c'', 3, ''u1'', ''Ann'', units ''again'', ''text'')]"

definition overflow_buffer :: message_buffer where
  "overflow_buffer = empty_buffer\<lparr>pendingWrites := map (numbered ''r1'') [100 ..< 2001]\<rparr>"

definition one_pending :: message_buffer where
  "one_pending = empty_buffer\<lparr>pendingWrites := [numbered ''r1'' 0]\<rparr>"

definition two_rooms_pending :: message_buffer where
  "two_rooms_pending =
     empty_buffer\<lparr>recentMessages := [''r1'' \<mapsto> [numbered ''r1'' 0], ''r2'' \<mapsto> [numbered ''r2'' 2]],
                  pendingWrites := [numbered ''r1'' 0, numbered ''r2'' 2]\<rparr>"

text \<open>A message of 501 code units, which the gateway accepts and the schema does not.\<close>

definition long_message :: pending_message where
  "long_message =
     \<lparr>pm_id = ''m9'', pm_roomId = ''r1'', pm_userId = ''u1'', pm_username = ''Ann'',
      pm_message = replicate 501 97, pm_type = ''text'', pm_timestamp = 9\<rparr>"

text \<open>A message whose type the gateway passes on and the schema's enumeration lacks.\<close>

definition sticker_message :: pending_message where
  "sticker_message =
     \<lparr>pm_id = ''m8'', pm_roomId = ''r1'', pm_userId = ''u1'', pm_username = ''Ann'',
      pm_message = units ''hi'', pm_type = ''sticker'', pm_timestamp = 8\<rparr>"

definition long_pending :: message_buffer where
  "long_pending = empty_buffer\<lparr>pendingWrites := [long_message]\<rparr>"

definition valid_and_long :: message_buffer where
  "valid_and_long =
     empty_buffer\<lparr>pendingWrites := [numbered ''r1'' 0, long_message, sticker_message]\<rparr>"






text \<open>
  The registry invariant: one session per connection, one session per user, and every
  session is filed under its own connection with its room recorded for its user.
\<close>

definition session_inv :: "session_manager \<Rightarrow> bool" where
  "session_inv s =
     (distinct (map fst (userSessions s)) \<and>
      distinct (map (\<lambda>(k, session). userId session) (userSessions s)) \<and>
      list_all (\<lambda>(k, session). socketId session = k \<and>
                  userRooms s (userId session) = Some (roomId session)) (userSessions s))"

definition three_requests :: session_manager where
  "three_requests = empty_sessions\<lparr>rateLimitMap := [''c1'' \<mapsto> [0, 0, 0]]\<rparr>"

definition ann :: user_doc where
  "ann = \<lparr>studentId = ''u1'', fullName = ''Ann'', isActive = True, isBanned = False,
          bannedReason = None, bannedAt = None, bannedBy = None\<rparr>"

definition empty_app :: app_state where
  "empty_app =
     \<lparr>sessions = empty_sessions, buffer = empty_buffer, users = Map.empty,
      liveRooms = Map.empty, serverSet = True, disconnected = {}, emitted = []\<rparr>"

text \<open>Ann is known, not banned, and in room r1 on connection s1.\<close>

definition ann_online :: app_state where
  "ann_online =
     empty_app\<lparr>sessions := run_ops [AddUserToRoom ''s1'' ''u1'' ''Ann'' ''r1'' 0],
               users := [''u1'' \<mapsto> ann]\<rparr>"

definition ban_ann :: ban_user_dto where
  "ban_ann = \<lparr>ban_userId = ''u1'', ban_reason = Some ''spam'', ban_bannedBy = Some ''admin''\<rparr>"

definition ann_typing :: "registry_op list" where
  "ann_typing = [AddUserToRoom ''s1'' ''u1'' ''Ann'' ''r1'' 0, AddTypingUser ''r1'' ''u1'']"

definition ann_session :: user_session where
  "ann_session = \<lparr>userId = ''u1'', username = ''Ann'', socketId = ''s1'', roomId = ''r1'',
                  joinTime = 0, lastActivity = 0\<rparr>"

text \<open>Ann is in room r1 on connection s1 when the user collection records her ban.\<close>

definition ann_banned_online :: app_state where
  "ann_banned_online =
     ann_online\<lparr>users := [''u1'' \<mapsto> ann\<lparr>isBanned := True, bannedReason := Some ''spam'',
                                         bannedBy := Some ''admin''\<rparr>]\<rparr>"

definition hello :: chat_message_dto where
  "hello = \<lparr>dto_roomId = ''r1'', dto_message = units ''hello'', dto_type = None\<rparr>"

section \<open>Properties of the message buffer\<close>

subsection \<open>The recent cache\<close>

lemma slice_from_neg: "0 < n \<Longrightarrow> slice_from (- n) xs = drop (length xs - nat n) xs"
proof -
  assume n: "0 < n"
  show ?thesis
  proof (cases "int (length xs) - n \<ge> 0")
    case True
    then have "nat (int (length xs) - n) = length xs - nat n" using n by linarith
    with True n show ?thesis by (simp add: slice_from_def Let_def max_def)
  next
    case False
    then have "length xs - nat n = 0" using n by linarith
    with False n show ?thesis by (simp add: slice_from_def Let_def max_def)
  qed
qed

lemma slice_from_zero: "slice_from 0 xs = xs"
  by (simp add: slice_from_def)

lemma recentMessages_flush_start [simp]: "recentMessages (flush_start cfg s) = recentMessages s"
  by (simp add: flush_start_def)

lemma keep_last_snoc:
  "drop (length (drop (length xs - n) xs @ [x]) - n) (drop (length xs - n) xs @ [x])
     = drop (length (xs @ [x]) - n) (xs @ [x])"
proof (cases "length xs \<le> n")
  case True
  then show ?thesis by simp
next
  case False
  then have "Suc (length xs) - n = Suc (length xs - n)" by simp
  with False show ?thesis by (simp add: drop_Suc drop_tl)
qed

lemma addMessage_recentMessages:
  "recentMessages (snd (addMessage cfg i t room u n b k s)) =
     (recentMessages s)(room \<mapsto>
        drop (length (recent_of s room @ [sent room (i, t, u, n, b, k)]) - MAX_RECENT_MESSAGES cfg)
          (recent_of s room @ [sent room (i, t, u, n, b, k)]))"
  by (simp add: addMessage_def Let_def sent_def)

lemma addMessage_recent_same:
  "recent_of (snd (addMessage cfg i t room u n b k s)) room =
     drop (length (recent_of s room @ [sent room (i, t, u, n, b, k)]) - MAX_RECENT_MESSAGES cfg)
       (recent_of s room @ [sent room (i, t, u, n, b, k)])"
  unfolding recent_of_def [of "snd (addMessage cfg i t room u n b k s)"] addMessage_recentMessages
  by simp

lemma addMessage_recent_other:
  "other \<noteq> room \<Longrightarrow> recent_of (snd (addMessage cfg i t room u n b k s)) other = recent_of s other"
  unfolding recent_of_def [of "snd (addMessage cfg i t room u n b k s)"] addMessage_recentMessages
  by (simp add: recent_of_def)

text \<open>
  After any run of \<open>addMessage\<close> on a room the cache holds the last
  \<open>MAX_RECENT_MESSAGES\<close> messages sent, oldest first.
\<close>

lemma addMessages_recent:
  "recent_of s room = drop (length xs - MAX_RECENT_MESSAGES cfg) xs \<Longrightarrow>
   recent_of (addMessages cfg room es s) room =
     drop (length (xs @ map (sent room) es) - MAX_RECENT_MESSAGES cfg) (xs @ map (sent room) es)"
proof (induction es arbitrary: s xs)
  case Nil
  then show ?case by simp
next
  case (Cons e es)
  obtain i t u n b k where e: "e = (i, t, u, n, b, k)" by (cases e) auto
  let ?s' = "snd (addMessage cfg i t room u n b k s)"
  have "recent_of ?s' room =
          drop (length (xs @ [sent room e]) - MAX_RECENT_MESSAGES cfg) (xs @ [sent room e])"
    unfolding addMessage_recent_same Cons.prems e by (rule keep_last_snoc)
  from Cons.IH [OF this] show ?case by (simp add: e)
qed

lemma addMessages_from_empty:
  "recent_of (addMessages cfg room es empty_buffer) room =
     drop (length es - MAX_RECENT_MESSAGES cfg) (map (sent room) es)"
  using addMessages_recent [of empty_buffer room "[]" cfg es]
  by (simp add: recent_of_def empty_buffer_def)

text \<open>The cache of a room never exceeds its capacity.\<close>

lemma recent_cache_bounded:
  "length (recent_of (addMessages cfg room es empty_buffer) room) \<le> MAX_RECENT_MESSAGES cfg"
  by (simp add: addMessages_from_empty)

text \<open>
  For a limit of at least one, \<open>getRecentMessages\<close> returns the newest messages first, as
  many as the limit and the capacity allow.
\<close>

lemma getRecentMessages_newest_first:
  assumes "0 < N"
  shows "getRecentMessages room N (addMessages cfg room es empty_buffer) =
           take (min (nat N) (MAX_RECENT_MESSAGES cfg)) (rev (map (sent room) es))"
proof -
  have "getRecentMessages room N (addMessages cfg room es empty_buffer) =
          rev (drop (length (drop (length es - MAX_RECENT_MESSAGES cfg) (map (sent room) es)) - nat N)
                 (drop (length es - MAX_RECENT_MESSAGES cfg) (map (sent room) es)))"
    using assms by (simp only: getRecentMessages_def slice_from_neg addMessages_from_empty)
  also have "\<dots> = take (nat N) (take (MAX_RECENT_MESSAGES cfg) (rev (map (sent room) es)))"
    by (simp add: take_rev)
  finally show ?thesis by (simp add: min.commute)
qed

text \<open>The scenario of the specification: capacity 2, three sends, a limit of 10.\<close>

lemma getRecentMessages_capacity_two:
  "map pm_message (getRecentMessages ''r1'' 10
     (addMessages (default_config\<lparr>MAX_RECENT_MESSAGES := 2\<rparr>) ''r1'' three_sends empty_buffer))
   = [units ''again'', units ''world'']"
  by (simp add: three_sends_def getRecentMessages_def slice_from_def addMessage_def recent_of_def
        empty_buffer_def default_config_def Let_def flush_start_def)

text \<open>
  C1. \<open>getRecentMessages(room, N)\<close> is to return the \<open>N\<close> most recent messages for
  every \<open>N\<close>. With a limit of 0 the source computes \<^verbatim>\<open>messages.slice(-0)\<close>, which is the
  whole array: after three sends under the default configuration the call returns all
  three messages, where the zero most recent messages are none.
\<close>

theorem getRecentMessages_zero_limit:
  "map pm_message (getRecentMessages ''r1'' 0
     (addMessages default_config ''r1'' three_sends empty_buffer))
   = [units ''again'', units ''world'', units ''hello'']"
  by (simp add: three_sends_def getRecentMessages_def slice_from_def addMessage_def recent_of_def
        empty_buffer_def default_config_def Let_def flush_start_def)


subsection \<open>Flushing the write queue\<close>


lemma stored_fields_insertMany:
  "map stored_fields (insertMany oid n outcome batch) = map message_fields (written outcome batch)"
proof -
  have "\<And>ks ms. length ks = length ms \<Longrightarrow>
          map stored_fields (map (\<lambda>(k, msg). mongoMessage (oid k) msg) (zip ks ms))
            = map message_fields ms"
  proof -
    fix ks :: "nat list" and ms :: "pending_message list"
    assume "length ks = length ms"
    then show "map stored_fields (map (\<lambda>(k, msg). mongoMessage (oid k) msg) (zip ks ms))
            = map message_fields ms"
      by (induction ks ms rule: list_induct2)
         (simp_all add: stored_fields_def message_fields_def mongoMessage_def)
  qed
  then show ?thesis by (simp add: insertMany_def)
qed

lemma flush_settle_rejected:
  "pendingWrites (flush_settle cfg oid (Rejected marks) batch s) =
     (if length (batch @ pendingWrites s) > EMERGENCY_FLUSH_SIZE cfg * 2
      then drop (length (batch @ pendingWrites s) - EMERGENCY_FLUSH_SIZE cfg) (batch @ pendingWrites s)
      else batch @ pendingWrites s)"
  by (simp add: flush_settle_def Let_def)

lemma flush_settle_resolved:
  "pendingWrites (flush_settle cfg oid Resolved batch s) = pendingWrites s"
  by (simp add: flush_settle_def Let_def)

lemma flush_settle_store:
  "chatMessages (flush_settle cfg oid outcome batch s) =
     chatMessages s @ insertMany oid (insertedCount s) outcome batch \<and>
   recentMessages (flush_settle cfg oid outcome batch s) = recentMessages s \<and>
   inFlight (flush_settle cfg oid outcome batch s) = inFlight s"
  by (cases outcome) (simp_all add: flush_settle_def Let_def)

lemma flush_settle_stored_fields:
  "map stored_fields (chatMessages (flush_settle cfg oid outcome batch s)) =
     map stored_fields (chatMessages s) @ map message_fields (written outcome batch)"
  by (simp add: flush_settle_store stored_fields_insertMany)

lemma flushToDatabase_rejected:
  "pendingWrites (flushToDatabase cfg oid (Rejected marks) s) =
     (if length (pendingWrites s) > EMERGENCY_FLUSH_SIZE cfg * 2
      then drop (length (pendingWrites s) - EMERGENCY_FLUSH_SIZE cfg) (pendingWrites s)
      else pendingWrites s)"
  by (simp add: flushToDatabase_def flush_settle_rejected)

lemma flushToDatabase_resolved:
  "pendingWrites (flushToDatabase cfg oid Resolved s) = drop (BATCH_SIZE cfg) (pendingWrites s)"
  by (simp add: flushToDatabase_def flush_settle_resolved)

lemma flushToDatabase_stored_fields:
  "map stored_fields (chatMessages (flushToDatabase cfg oid outcome s)) =
     map stored_fields (chatMessages s) @
     map message_fields (written outcome (take (BATCH_SIZE cfg) (pendingWrites s)))"
proof (cases "pendingWrites s = []")
  case True
  then show ?thesis by (cases outcome) (simp_all add: flushToDatabase_def)
next
  case False
  then show ?thesis by (simp add: flushToDatabase_def flush_settle_stored_fields)
qed

text \<open>
  C2, as the code has it. When the insert of a flush is rejected and the queue stays
  within the ceiling of twice the emergency threshold, the drained batch is back at the
  head of the queue in its order (for a batch that settles later, too, whatever was queued
  meanwhile); what the store wrote before it rejected stays written. A following flush
  that resolves takes the batch off the queue and appends one document, with the fields of
  the message, for each entry of the batch that the schema accepts, in order.
\<close>

theorem failed_flush_requeues_batch:
  assumes "length (pendingWrites s) \<le> 2 * EMERGENCY_FLUSH_SIZE cfg"
    and "length (batch @ pendingWrites t) \<le> 2 * EMERGENCY_FLUSH_SIZE cfg"
  shows "pendingWrites (flush_settle cfg oid (Rejected marks) batch t) = batch @ pendingWrites t \<and>
         map stored_fields (chatMessages (flush_settle cfg oid (Rejected marks) batch t)) =
           map stored_fields (chatMessages t) @
           map message_fields
             (map snd (filter (\<lambda>(w, msg). w \<and> schema_valid msg) (zip marks batch))) \<and>
         pendingWrites (flushToDatabase cfg oid (Rejected marks) s) = pendingWrites s \<and>
         pendingWrites (flushToDatabase cfg oid Resolved (flushToDatabase cfg oid (Rejected marks) s)) =
           drop (BATCH_SIZE cfg) (pendingWrites s) \<and>
         map stored_fields
           (chatMessages (flushToDatabase cfg oid Resolved (flushToDatabase cfg oid (Rejected marks) s))) =
           map stored_fields (chatMessages (flushToDatabase cfg oid (Rejected marks) s)) @
           map message_fields (filter schema_valid (take (BATCH_SIZE cfg) (pendingWrites s)))"
proof -
  have q: "pendingWrites (flushToDatabase cfg oid (Rejected marks) s) = pendingWrites s"
    using assms(1) by (simp add: flushToDatabase_rejected)
  have r: "pendingWrites (flush_settle cfg oid (Rejected marks) batch t) = batch @ pendingWrites t"
    using assms(2) unfolding flush_settle_rejected by simp
  have w: "map stored_fields (chatMessages (flush_settle cfg oid (Rejected marks) batch t)) =
           map stored_fields (chatMessages t) @
           map message_fields
             (map snd (filter (\<lambda>(w, msg). w \<and> schema_valid msg) (zip marks batch)))"
    by (simp add: flush_settle_stored_fields)
  have l: "map stored_fields
           (chatMessages (flushToDatabase cfg oid Resolved (flushToDatabase cfg oid (Rejected marks) s))) =
           map stored_fields (chatMessages (flushToDatabase cfg oid (Rejected marks) s)) @
           map message_fields (filter schema_valid (take (BATCH_SIZE cfg) (pendingWrites s)))"
    by (simp add: flushToDatabase_stored_fields [of cfg oid Resolved] q)
  have d: "pendingWrites (flushToDatabase cfg oid Resolved (flushToDatabase cfg oid (Rejected marks) s)) =
           drop (BATCH_SIZE cfg) (pendingWrites s)"
    by (simp add: flushToDatabase_resolved q)
  show ?thesis
    using q r w l d by (intro conjI)
qed

lemma numbered_fields:
  "message_fields (numbered room n) = (room, ''u1'', ''Ann'', units ''hi'', ''text'', int n, False)"
  by (simp add: message_fields_def numbered_def)

lemma numbered_valid: "room \<noteq> [] \<Longrightarrow> schema_valid (numbered room n)"
  by (simp add: schema_valid_def numbered_def units_def)

lemma long_message_invalid: "\<not> schema_valid long_message"
  by (simp add: schema_valid_def long_message_def)

lemma sticker_message_invalid: "\<not> schema_valid sticker_message"
  by (simp add: schema_valid_def sticker_message_def)

theorem failed_flush_requeues_batch_witness:
  "length (pendingWrites valid_and_long) \<le> 2 * EMERGENCY_FLUSH_SIZE default_config \<and>
   pendingWrites (flushToDatabase default_config unary_oid (Rejected [False, True, True]) valid_and_long)
     = [numbered ''r1'' 0, long_message, sticker_message] \<and>
   map stored_fields
     (chatMessages (flush_settle default_config unary_oid (Rejected [True, True, True])
                      [numbered ''r1'' 0, long_message, sticker_message] empty_buffer))
     = [(''r1'', ''u1'', ''Ann'', units ''hi'', ''text'', 0, False)] \<and>
   pendingWrites (flush_settle default_config unary_oid (Rejected [True, True, True])
                      [numbered ''r1'' 0, long_message, sticker_message] empty_buffer)
     = [numbered ''r1'' 0, long_message, sticker_message] \<and>
   pendingWrites (flushToDatabase default_config unary_oid Resolved
      (flushToDatabase default_config unary_oid (Rejected [False, True, True]) valid_and_long)) = [] \<and>
   map stored_fields (chatMessages (flushToDatabase default_config unary_oid Resolved
      (flushToDatabase default_config unary_oid (Rejected [False, True, True]) valid_and_long)))
     = [(''r1'', ''u1'', ''Ann'', units ''hi'', ''text'', 0, False)]"
proof -
  have p: "pendingWrites valid_and_long = [numbered ''r1'' 0, long_message, sticker_message]"
    and c: "chatMessages valid_and_long = []"
    by (simp_all add: valid_and_long_def empty_buffer_def)
  have pe: "pendingWrites empty_buffer = []" and ce: "chatMessages empty_buffer = []"
    by (simp_all add: empty_buffer_def)
  have v: "schema_valid (numbered ''r1'' 0)" by (rule numbered_valid) simp
  have h1: "length (pendingWrites valid_and_long) \<le> 2 * EMERGENCY_FLUSH_SIZE default_config"
    by (simp add: p default_config_def)
  have h2: "length ([numbered ''r1'' 0, long_message, sticker_message] @ pendingWrites empty_buffer)
              \<le> 2 * EMERGENCY_FLUSH_SIZE default_config"
    by (simp add: pe default_config_def)
  have b: "take (BATCH_SIZE default_config) [numbered ''r1'' 0, long_message, sticker_message]
             = [numbered ''r1'' 0, long_message, sticker_message]"
    and dr: "drop (BATCH_SIZE default_config) [numbered ''r1'' 0, long_message, sticker_message] = []"
    by (simp_all add: default_config_def)
  note inst = failed_flush_requeues_batch [OF h1 h2, where oid = unary_oid]
  note i1 = inst [where marks = "[True, True, True]"]
  note i2 = inst [where marks = "[False, True, True]"]
  have a1: "pendingWrites (flush_settle default_config unary_oid (Rejected [True, True, True])
                      [numbered ''r1'' 0, long_message, sticker_message] empty_buffer)
     = [numbered ''r1'' 0, long_message, sticker_message]"
    using i1 [THEN conjunct1] by (simp only: pe append_Nil2)
  have a2: "map stored_fields
     (chatMessages (flush_settle default_config unary_oid (Rejected [True, True, True])
                      [numbered ''r1'' 0, long_message, sticker_message] empty_buffer))
     = [(''r1'', ''u1'', ''Ann'', units ''hi'', ''text'', 0, False)]"
    unfolding i1 [THEN conjunct2, THEN conjunct1]
    by (simp add: ce v long_message_invalid sticker_message_invalid numbered_fields)
  note rest = i2 [THEN conjunct2, THEN conjunct2]
  have a3: "pendingWrites (flushToDatabase default_config unary_oid (Rejected [False, True, True]) valid_and_long)
     = [numbered ''r1'' 0, long_message, sticker_message]"
    using rest [THEN conjunct1] by (simp only: p)
  have a4: "pendingWrites (flushToDatabase default_config unary_oid Resolved
      (flushToDatabase default_config unary_oid (Rejected [False, True, True]) valid_and_long)) = []"
    using rest [THEN conjunct2, THEN conjunct1] by (simp only: p dr)
  have first: "map stored_fields
      (chatMessages (flushToDatabase default_config unary_oid (Rejected [False, True, True]) valid_and_long)) = []"
    unfolding flushToDatabase_stored_fields
    by (simp add: c p b v long_message_invalid sticker_message_invalid)
  have a5: "map stored_fields (chatMessages (flushToDatabase default_config unary_oid Resolved
      (flushToDatabase default_config unary_oid (Rejected [False, True, True]) valid_and_long)))
     = [(''r1'', ''u1'', ''Ann'', units ''hi'', ''text'', 0, False)]"
    unfolding rest [THEN conjunct2, THEN conjunct2] first
    by (simp add: p b v long_message_invalid sticker_message_invalid numbered_fields)
  show ?thesis
    using h1 a3 a2 a1 a4 a5 by (intro conjI)
qed

text \<open>
  C2 as stated fails on what the later flush persists. A batch of one message is rejected
  after the store has written it: it is queued again, and the flush that then resolves
  stores it a second time. And a message of 501 code units, rejected once and flushed
  again, leaves the queue with the flush that resolves and is stored by neither.
\<close>

theorem retried_flush_duplicates_or_drops:
  "pendingWrites (flushToDatabase default_config unary_oid (Rejected [True]) one_pending)
     = [numbered ''r1'' 0] \<and>
   map stored_fields
     (chatMessages (flushToDatabase default_config unary_oid Resolved
        (flushToDatabase default_config unary_oid (Rejected [True]) one_pending)))
     = [(''r1'', ''u1'', ''Ann'', units ''hi'', ''text'', 0, False),
        (''r1'', ''u1'', ''Ann'', units ''hi'', ''text'', 0, False)] \<and>
   pendingWrites (flushToDatabase default_config unary_oid (Rejected [])
                    long_pending) = [long_message] \<and>
   pendingWrites (flushToDatabase default_config unary_oid Resolved
     (flushToDatabase default_config unary_oid (Rejected [])
        long_pending)) = [] \<and>
   chatMessages (flushToDatabase default_config unary_oid Resolved
     (flushToDatabase default_config unary_oid (Rejected [])
        long_pending)) = []"
proof -
  have v: "schema_valid (numbered ''r1'' 0)" by (rule numbered_valid) simp
  have p: "pendingWrites one_pending = [numbered ''r1'' 0]" and c: "chatMessages one_pending = []"
    by (simp_all add: one_pending_def empty_buffer_def)
  have b: "BATCH_SIZE default_config = 100" and e: "EMERGENCY_FLUSH_SIZE default_config = 1000"
    by (simp_all add: default_config_def)
  have a1: "pendingWrites (flushToDatabase default_config unary_oid (Rejected [True]) one_pending)
     = [numbered ''r1'' 0]"
    by (simp add: flushToDatabase_rejected p e)
  have a2: "map stored_fields
     (chatMessages (flushToDatabase default_config unary_oid Resolved
        (flushToDatabase default_config unary_oid (Rejected [True]) one_pending)))
     = [(''r1'', ''u1'', ''Ann'', units ''hi'', ''text'', 0, False),
        (''r1'', ''u1'', ''Ann'', units ''hi'', ''text'', 0, False)]"
    by (simp add: flushToDatabase_stored_fields a1 p c b v numbered_fields)
  have p2: "pendingWrites long_pending = [long_message]" and c2: "chatMessages long_pending = []"
    by (simp_all add: long_pending_def empty_buffer_def)
  have a3: "pendingWrites (flushToDatabase default_config unary_oid (Rejected []) long_pending) = [long_message]"
    by (simp add: flushToDatabase_rejected e p2)
  have a4: "pendingWrites (flushToDatabase default_config unary_oid Resolved
     (flushToDatabase default_config unary_oid (Rejected []) long_pending)) = []"
    by (simp add: flushToDatabase_resolved a3 b)
  have "map stored_fields (chatMessages (flushToDatabase default_config unary_oid Resolved
     (flushToDatabase default_config unary_oid (Rejected []) long_pending))) = []"
    by (simp add: flushToDatabase_stored_fields a3 p2 c2 b long_message_invalid)
  then have a5: "chatMessages (flushToDatabase default_config unary_oid Resolved
     (flushToDatabase default_config unary_oid (Rejected []) long_pending)) = []"
    by simp
  show ?thesis
    using a1 a2 a3 a4 a5 by (intro conjI)
qed

text \<open>
  C3, as the code has it. A failed flush that leaves more than twice the emergency
  threshold in the queue keeps the newest \<open>EMERGENCY_FLUSH_SIZE\<close> entries, not the newest
  twice that many; otherwise it drops nothing. Either way the queue is then no longer than
  twice the threshold.
\<close>

theorem failed_flush_keeps_newest:
  "(length (batch @ pendingWrites s) > 2 * EMERGENCY_FLUSH_SIZE cfg \<longrightarrow>
      pendingWrites (flush_settle cfg oid (Rejected marks) batch s) =
        drop (length (batch @ pendingWrites s) - EMERGENCY_FLUSH_SIZE cfg) (batch @ pendingWrites s) \<and>
      length (pendingWrites (flush_settle cfg oid (Rejected marks) batch s)) = EMERGENCY_FLUSH_SIZE cfg) \<and>
   (length (batch @ pendingWrites s) \<le> 2 * EMERGENCY_FLUSH_SIZE cfg \<longrightarrow>
      pendingWrites (flush_settle cfg oid (Rejected marks) batch s) = batch @ pendingWrites s) \<and>
   length (pendingWrites (flush_settle cfg oid (Rejected marks) batch s)) \<le> 2 * EMERGENCY_FLUSH_SIZE cfg"
proof -
  define q where "q = batch @ pendingWrites s"
  have r: "pendingWrites (flush_settle cfg oid (Rejected marks) batch s) =
             (if length q > EMERGENCY_FLUSH_SIZE cfg * 2
              then drop (length q - EMERGENCY_FLUSH_SIZE cfg) q else q)"
    unfolding q_def by (rule flush_settle_rejected)
  show ?thesis
    unfolding q_def [symmetric] r by auto
qed

theorem failed_flush_keeps_newest_witness:
  "length (map (numbered ''r1'') [0 ..< 100] @ pendingWrites overflow_buffer)
      > 2 * EMERGENCY_FLUSH_SIZE default_config \<and>
   length (pendingWrites (flush_settle default_config unary_oid (Rejected [])
             (map (numbered ''r1'') [0 ..< 100]) overflow_buffer)) = 1000 \<and>
   length ([numbered ''r3'' 3] @ pendingWrites two_rooms_pending)
      \<le> 2 * EMERGENCY_FLUSH_SIZE default_config \<and>
   pendingWrites (flush_settle default_config unary_oid (Rejected []) [numbered ''r3'' 3] two_rooms_pending)
      = [numbered ''r3'' 3] @ pendingWrites two_rooms_pending"
proof -
  have h1: "length (map (numbered ''r1'') [0 ..< 100] @ pendingWrites overflow_buffer)
              > 2 * EMERGENCY_FLUSH_SIZE default_config"
    by (simp add: overflow_buffer_def default_config_def del: upt_rec_numeral)
  have h2: "length ([numbered ''r3'' 3] @ pendingWrites two_rooms_pending)
              \<le> 2 * EMERGENCY_FLUSH_SIZE default_config"
    by (simp add: two_rooms_pending_def default_config_def)
  have e: "EMERGENCY_FLUSH_SIZE default_config = 1000"
    by (simp add: default_config_def)
  have a: "length (pendingWrites (flush_settle default_config unary_oid (Rejected [])
             (map (numbered ''r1'') [0 ..< 100]) overflow_buffer)) = EMERGENCY_FLUSH_SIZE default_config"
    using failed_flush_keeps_newest
         [where batch = "map (numbered ''r1'') [0 ..< 100]" and s = overflow_buffer
            and cfg = default_config and oid = unary_oid and marks = "[]"] h1
    by blast
  have b: "pendingWrites (flush_settle default_config unary_oid (Rejected []) [numbered ''r3'' 3] two_rooms_pending)
             = [numbered ''r3'' 3] @ pendingWrites two_rooms_pending"
    using failed_flush_keeps_newest
         [where batch = "[numbered ''r3'' 3]" and s = two_rooms_pending
            and cfg = default_config and oid = unary_oid and marks = "[]"] h2
    by blast
  show ?thesis
    using h1 h2 a [unfolded e] b by blast
qed

text \<open>
  C3 as stated fails. In the code's configuration a batch of 100 fails while 1901 entries
  are queued: of the 2001 entries the code keeps the newest 1000, where dropping only what
  exceeds 2000 would keep the newest 2000.
\<close>

theorem failed_flush_drops_to_threshold:
  "pendingWrites (flush_settle default_config unary_oid (Rejected [])
      (map (numbered ''r1'') [0 ..< 100]) overflow_buffer)
     = map (numbered ''r1'') [1001 ..< 2001] \<and>
   pendingWrites (requeue_spec default_config (map (numbered ''r1'') [0 ..< 100]) overflow_buffer)
     = map (numbered ''r1'') [1 ..< 2001]"
proof -
  have q: "map (numbered ''r1'') [0 ..< 100] @ map (numbered ''r1'') [100 ..< 2001]
             = map (numbered ''r1'') [0 ..< 2001]"
  proof -
    have "[0 ..< 100 + 1901] = [0 ..< 100] @ [100 ..< 100 + 1901]"
      by (rule upt_add_eq_append) simp
    then have "[0 ..< 2001] = [0 ..< 100] @ [100 ..< 2001]"
      by (simp del: upt_rec_numeral)
    then show ?thesis
      by (simp only: map_append)
  qed
  have p: "pendingWrites overflow_buffer = map (numbered ''r1'') [100 ..< 2001]"
    by (simp add: overflow_buffer_def)
  show ?thesis
    unfolding flush_settle_rejected requeue_spec_def Let_def p q
    by (simp add: default_config_def drop_map del: upt_rec_numeral)
qed


subsection \<open>Shutdown\<close>

lemma rejected_flush_stays_nonempty:
  assumes "pendingWrites s \<noteq> []" and "0 < EMERGENCY_FLUSH_SIZE cfg"
  shows "pendingWrites (flushToDatabase cfg oid (Rejected marks) s) \<noteq> []"
  using assms by (auto simp: flushToDatabase_rejected)

lemma shutdown_all_resolved:
  assumes B: "0 < BATCH_SIZE cfg" and ok: "\<forall>j \<ge> k. store j = Resolved"
  shows "\<exists>s'. onApplicationShutdown cfg oid store k s = Some s' \<and> pendingWrites s' = []"
  using ok
proof (induction "length (pendingWrites s)" arbitrary: s k rule: less_induct)
  case less
  show ?case
  proof (cases "pendingWrites s = []")
    case True
    then show ?thesis
      by (subst onApplicationShutdown.simps) simp
  next
    case False
    let ?s1 = "flushToDatabase cfg oid (store k) s"
    have okk: "store k = Resolved" using less.prems by simp
    have shorter: "length (pendingWrites ?s1) < length (pendingWrites s)"
      using False B by (simp add: okk flushToDatabase_resolved)
    have "\<forall>j \<ge> Suc k. store j = Resolved" using less.prems by simp
    from less.hyps [OF shorter this] obtain s' where
      run: "onApplicationShutdown cfg oid store (Suc k) ?s1 = Some s'" and
      q: "pendingWrites s' = []"
      by blast
    have "onApplicationShutdown cfg oid store k s = Some s'"
      using False run by (subst onApplicationShutdown.simps) simp
    then show ?thesis using q by blast
  qed
qed

lemma shutdown_eventually_resolved:
  assumes B: "0 < BATCH_SIZE cfg" and ok: "\<forall>j \<ge> K. store j = Resolved"
  shows "\<exists>s'. onApplicationShutdown cfg oid store k s = Some s' \<and> pendingWrites s' = []"
proof (induction "K - k" arbitrary: s k)
  case 0
  then have "\<forall>j \<ge> k. store j = Resolved" using ok by simp
  from shutdown_all_resolved [OF B this] show ?case by blast
next
  case (Suc d)
  show ?case
  proof (cases "pendingWrites s = []")
    case True
    then show ?thesis by (subst onApplicationShutdown.simps) simp
  next
    case False
    have "d = K - Suc k" using Suc.hyps(2) by simp
    from Suc.hyps(1) [OF this] obtain s' where
      "onApplicationShutdown cfg oid store (Suc k) (flushToDatabase cfg oid (store k) s) = Some s'"
      "pendingWrites s' = []" by blast
    then show ?thesis using False by (subst onApplicationShutdown.simps) simp
  qed
qed

lemma shutdown_never_returns_aux:
  assumes "onApplicationShutdown cfg oid store k s = Some s'"
  shows "(\<forall>j. store j \<noteq> Resolved) \<longrightarrow> 0 < EMERGENCY_FLUSH_SIZE cfg \<longrightarrow> pendingWrites s = []"
proof (rule onApplicationShutdown.raw_induct
    [where P = "\<lambda>cfg oid store k s s'.
       (\<forall>j. store j \<noteq> Resolved) \<longrightarrow> 0 < EMERGENCY_FLUSH_SIZE cfg \<longrightarrow> pendingWrites s = []",
     OF _ assms])
  fix shutdown cfg oid store k s and s' :: message_buffer
  assume IH: "\<And>cfg oid store k s s'. shutdown cfg oid store k s = Some s' \<Longrightarrow>
           (\<forall>j. store j \<noteq> Resolved) \<longrightarrow> 0 < EMERGENCY_FLUSH_SIZE cfg \<longrightarrow> pendingWrites s = []"
    and step: "(if pendingWrites s = [] then Some s
                else shutdown cfg oid store (Suc k) (flushToDatabase cfg oid (store k) s)) = Some s'"
  show "(\<forall>j. store j \<noteq> Resolved) \<longrightarrow> 0 < EMERGENCY_FLUSH_SIZE cfg \<longrightarrow> pendingWrites s = []"
  proof (intro impI)
    assume bad: "\<forall>j. store j \<noteq> Resolved" and E: "0 < EMERGENCY_FLUSH_SIZE cfg"
    show "pendingWrites s = []"
    proof (rule ccontr)
      assume ne: "pendingWrites s \<noteq> []"
      with step have "shutdown cfg oid store (Suc k) (flushToDatabase cfg oid (store k) s) = Some s'"
        by simp
      from IH [OF this] bad E have "pendingWrites (flushToDatabase cfg oid (store k) s) = []"
        by blast
      moreover obtain marks where "store k = Rejected marks"
        using bad by (cases "store k") auto
      ultimately show False using rejected_flush_stays_nonempty [OF ne E] by simp
    qed
  qed
qed

lemma shutdown_never_returns:
  assumes "\<forall>j. store j \<noteq> Resolved" and "0 < EMERGENCY_FLUSH_SIZE cfg" and "pendingWrites s \<noteq> []"
  shows "onApplicationShutdown cfg oid store k s = None"
proof (cases "onApplicationShutdown cfg oid store k s")
  case None
  then show ?thesis .
next
  case (Some s')
  from shutdown_never_returns_aux [OF this] assms show ?thesis by blast
qed

lemma shutdown_returns_empty:
  assumes "onApplicationShutdown cfg oid store k s = Some s'"
  shows "pendingWrites s' = []"
proof (rule onApplicationShutdown.raw_induct
    [where P = "\<lambda>cfg oid store k s s'. pendingWrites s' = []", OF _ assms])
  fix shutdown cfg oid store k s and s' :: message_buffer
  assume IH: "\<And>cfg oid store k s s'. shutdown cfg oid store k s = Some s' \<Longrightarrow>
           pendingWrites s' = []"
    and step: "(if pendingWrites s = [] then Some s
                else shutdown cfg oid store (Suc k) (flushToDatabase cfg oid (store k) s)) = Some s'"
  show "pendingWrites s' = []"
  proof (cases "pendingWrites s = []")
    case True
    with step show ?thesis by simp
  next
    case False
    with step have "shutdown cfg oid store (Suc k) (flushToDatabase cfg oid (store k) s) = Some s'"
      by simp
    then show ?thesis by (rule IH)
  qed
qed

text \<open>
  C8, as the code has it. The shutdown loop flushes until the queue is empty and has no
  retry limit: it returns, with the queue empty, when the batch size is positive and the
  store resolves every insert from some call on; when it returns at all the queue is empty;
  and with a store that rejects every insert and a queue that is not empty it never returns.
\<close>

theorem shutdown_drains_without_retry_limit:
  "(0 < BATCH_SIZE cfg \<and> (\<forall>j \<ge> K. store j = Resolved) \<longrightarrow>
      (\<exists>s'. onApplicationShutdown cfg oid store k s = Some s' \<and> pendingWrites s' = [])) \<and>
   (\<forall>s'. onApplicationShutdown cfg oid store k s = Some s' \<longrightarrow> pendingWrites s' = []) \<and>
   ((\<forall>j. store j \<noteq> Resolved) \<and> 0 < EMERGENCY_FLUSH_SIZE cfg \<and> pendingWrites s \<noteq> [] \<longrightarrow>
      onApplicationShutdown cfg oid store k s = None)"
proof (intro conjI impI allI)
  assume "0 < BATCH_SIZE cfg \<and> (\<forall>j \<ge> K. store j = Resolved)"
  then show "\<exists>s'. onApplicationShutdown cfg oid store k s = Some s' \<and> pendingWrites s' = []"
    using shutdown_eventually_resolved [of cfg K store oid k s] by blast
next
  fix s'
  assume "onApplicationShutdown cfg oid store k s = Some s'"
  then show "pendingWrites s' = []" by (rule shutdown_returns_empty)
next
  assume "(\<forall>j. store j \<noteq> Resolved) \<and> 0 < EMERGENCY_FLUSH_SIZE cfg \<and> pendingWrites s \<noteq> []"
  then show "onApplicationShutdown cfg oid store k s = None"
    using shutdown_never_returns [of store cfg s oid k] by blast
qed

theorem shutdown_drains_without_retry_limit_witness:
  "0 < BATCH_SIZE default_config \<and>
   (\<exists>s'. onApplicationShutdown default_config unary_oid always_succeeds 0 two_rooms_pending = Some s' \<and>
         pendingWrites s' = []) \<and>
   0 < EMERGENCY_FLUSH_SIZE default_config \<and> pendingWrites two_rooms_pending \<noteq> [] \<and>
   onApplicationShutdown default_config unary_oid always_fails 3 two_rooms_pending = None"
proof -
  have b: "0 < BATCH_SIZE default_config" and e: "0 < EMERGENCY_FLUSH_SIZE default_config"
    by (simp_all add: default_config_def)
  have ne: "pendingWrites two_rooms_pending \<noteq> []"
    by (simp add: two_rooms_pending_def empty_buffer_def)
  have ok: "\<forall>j \<ge> 0. always_succeeds j = Resolved" and bad: "\<forall>j. always_fails j \<noteq> Resolved"
    by (simp_all add: always_succeeds_def always_fails_def)
  note good = shutdown_drains_without_retry_limit
      [where cfg = default_config and oid = unary_oid and store = always_succeeds
         and k = 0 and K = 0 and s = two_rooms_pending]
  note stuck = shutdown_drains_without_retry_limit
      [where cfg = default_config and oid = unary_oid and store = always_fails
         and k = 3 and K = 0 and s = two_rooms_pending]
  have a1: "\<exists>s'. onApplicationShutdown default_config unary_oid always_succeeds 0 two_rooms_pending = Some s' \<and>
         pendingWrites s' = []"
    by (rule good [THEN conjunct1, THEN mp, OF conjI [OF b ok]])
  have a2: "onApplicationShutdown default_config unary_oid always_fails 3 two_rooms_pending = None"
    by (rule stuck [THEN conjunct2, THEN conjunct2, THEN mp, OF conjI [OF bad conjI [OF e ne]]])
  show ?thesis using b a1 e ne a2 by (intro conjI)
qed

text \<open>
  C8 as stated fails: with one queued message and a store that rejects every insert, the
  shutdown of the code's configuration never returns.
\<close>

theorem shutdown_loops_on_failing_store:
  "onApplicationShutdown default_config unary_oid always_fails 0 one_pending = None"
  by (rule shutdown_never_returns) (simp_all add: always_fails_def default_config_def one_pending_def)


subsection \<open>Clearing a room\<close>











subsection \<open>Deleting a message\<close>









section \<open>Properties of the session registry\<close>

subsection \<open>The rate limiter\<close>

text \<open>
  C4, as the code has it. \<open>checkRateLimit\<close> counts the recorded timestamps \<open>t\<close> with
  \<open>now - t < windowMs\<close>, the window \<open>(now - windowMs, now]\<close> open at its old end; it
  admits when fewer than \<open>maxRequests\<close> of them remain, and then records them followed
  by \<open>now\<close>, and otherwise rejects and records nothing. It agrees with the specification's
  closed window whenever no recorded timestamp is exactly \<open>windowMs\<close> old or lies in the
  future. With a limit of 3 in 1000 ms, four calls at one instant are answered yes, yes,
  yes, no, and a call 1000 ms later yes.
\<close>

theorem checkRateLimit_sliding_window:
  "checkRateLimit sock maxRequests windowMs now s =
     (if int (length (filter (\<lambda>t. now - windowMs < t)
                 (case rateLimitMap s sock of None \<Rightarrow> [] | Some r \<Rightarrow> r))) < maxRequests
      then (True, s\<lparr>rateLimitMap := (rateLimitMap s)
                     (sock \<mapsto> filter (\<lambda>t. now - windowMs < t)
                                (case rateLimitMap s sock of None \<Rightarrow> [] | Some r \<Rightarrow> r) @ [now])\<rparr>)
      else (False, s)) \<and>
   ((\<forall>t \<in> set (case rateLimitMap s sock of None \<Rightarrow> [] | Some r \<Rightarrow> r).
        t \<noteq> now - windowMs \<and> t \<le> now) \<longrightarrow>
      checkRateLimit sock maxRequests windowMs now s =
        checkRateLimit_spec sock maxRequests windowMs now s) \<and>
   rate_calls ''c1'' 3 1000 [0, 0, 0, 0, 1000] empty_sessions = [True, True, True, False, True]"
proof (intro conjI impI)
  have f: "(\<lambda>time. now - time < windowMs) = (\<lambda>t. now - windowMs < t)"
    by (rule ext) arith
  show "checkRateLimit sock maxRequests windowMs now s =
     (if int (length (filter (\<lambda>t. now - windowMs < t)
                 (case rateLimitMap s sock of None \<Rightarrow> [] | Some r \<Rightarrow> r))) < maxRequests
      then (True, s\<lparr>rateLimitMap := (rateLimitMap s)
                     (sock \<mapsto> filter (\<lambda>t. now - windowMs < t)
                                (case rateLimitMap s sock of None \<Rightarrow> [] | Some r \<Rightarrow> r) @ [now])\<rparr>)
      else (False, s))"
    by (simp add: checkRateLimit_def Let_def f not_le)
next
  assume inside: "\<forall>t \<in> set (case rateLimitMap s sock of None \<Rightarrow> [] | Some r \<Rightarrow> r).
        t \<noteq> now - windowMs \<and> t \<le> now"
  have "filter (\<lambda>time. now - time < windowMs) (case rateLimitMap s sock of None \<Rightarrow> [] | Some r \<Rightarrow> r)
        = filter (\<lambda>time. now - windowMs \<le> time \<and> time \<le> now)
            (case rateLimitMap s sock of None \<Rightarrow> [] | Some r \<Rightarrow> r)"
    using inside by (intro filter_cong refl) force
  then show "checkRateLimit sock maxRequests windowMs now s =
        checkRateLimit_spec sock maxRequests windowMs now s"
    by (simp add: checkRateLimit_def checkRateLimit_spec_def Let_def not_le)
next
  show "rate_calls ''c1'' 3 1000 [0, 0, 0, 0, 1000] empty_sessions = [True, True, True, False, True]"
    by (simp add: checkRateLimit_def empty_sessions_def Let_def)
qed

theorem checkRateLimit_sliding_window_witness:
  "rateLimitMap three_requests ''c1'' = Some [0, 0, 0] \<and>
   checkRateLimit ''c1'' 3 1000 1001 three_requests =
     checkRateLimit_spec ''c1'' 3 1000 1001 three_requests \<and>
   fst (checkRateLimit ''c1'' 3 1000 1001 three_requests)"
proof -
  have h: "\<forall>t \<in> set (case rateLimitMap three_requests ''c1'' of None \<Rightarrow> [] | Some r \<Rightarrow> r).
        t \<noteq> 1001 - 1000 \<and> t \<le> 1001"
    by (simp add: three_requests_def)
  note inst = checkRateLimit_sliding_window
      [where sock = "''c1''" and maxRequests = 3 and windowMs = 1000 and now = 1001
         and s = three_requests]
  have a: "checkRateLimit ''c1'' 3 1000 1001 three_requests =
             checkRateLimit_spec ''c1'' 3 1000 1001 three_requests"
    using inst [THEN conjunct2, THEN conjunct1] h by (rule mp)
  have b: "fst (checkRateLimit ''c1'' 3 1000 1001 three_requests)"
    unfolding inst [THEN conjunct1] by (simp add: three_requests_def)
  have r: "rateLimitMap three_requests ''c1'' = Some [0, 0, 0]"
    by (simp add: three_requests_def)
  show ?thesis using r a b by (intro conjI)
qed

text \<open>
  C4 as stated fails on the closed window. Three requests are recorded at time 0; at time
  1000, with a limit of 3 in 1000 ms, they all lie in \<open>[now - windowMs, now]\<close>, so the
  specification's limiter rejects, and the code admits.
\<close>

theorem checkRateLimit_window_is_half_open:
  "fst (checkRateLimit ''c1'' 3 1000 1000 three_requests) \<and>
   \<not> fst (checkRateLimit_spec ''c1'' 3 1000 1000 three_requests)"
  by (simp add: checkRateLimit_def checkRateLimit_spec_def three_requests_def Let_def)


subsection \<open>One session per connection and per user\<close>

lemma delete_first_session_filter:
  "distinct (map (\<lambda>(k, session). userId session) xs) \<Longrightarrow>
   delete_first_session uid xs = filter (\<lambda>(k, session). userId session \<noteq> uid) xs"
proof (induction xs)
  case Nil
  then show ?case by simp
next
  case (Cons x xs)
  obtain k session where x: "x = (k, session)" by (cases x)
  show ?case
  proof (cases "userId session = uid")
    case True
    then have "uid \<notin> set (map (\<lambda>(k, session). userId session) xs)"
      using Cons.prems by (simp add: x)
    then have "filter (\<lambda>(k, session). userId session \<noteq> uid) xs = xs"
      by (intro filter_True) auto
    with True show ?thesis by (simp add: x)
  next
    case False
    with Cons show ?thesis by (simp add: x)
  qed
qed

lemma update_userIds_distinct:
  assumes "distinct (map (\<lambda>(k, session). userId session) xs)"
    and "userId new \<notin> set (map (\<lambda>(k, session). userId session) xs)"
  shows "distinct (map (\<lambda>(k, session). userId session) (AList.update sock new xs)) \<and>
         set (map (\<lambda>(k, session). userId session) (AList.update sock new xs))
           \<subseteq> insert (userId new) (set (map (\<lambda>(k, session). userId session) xs))"
  using assms
proof (induction xs)
  case Nil
  then show ?case by simp
next
  case (Cons x xs)
  obtain k session where x: "x = (k, session)" by (cases x)
  show ?case
  proof (cases "k = sock")
    case True
    with Cons.prems show ?thesis by (auto simp: x)
  next
    case False
    have "distinct (map (\<lambda>(k, session). userId session) (AList.update sock new xs)) \<and>
          set (map (\<lambda>(k, session). userId session) (AList.update sock new xs))
            \<subseteq> insert (userId new) (set (map (\<lambda>(k, session). userId session) xs))"
      using Cons.IH Cons.prems by (simp add: x)
    then have d: "distinct (map (\<lambda>(k, session). userId session) (AList.update sock new xs))"
      and sub: "set (map (\<lambda>(k, session). userId session) (AList.update sock new xs))
            \<subseteq> insert (userId new) (set (map (\<lambda>(k, session). userId session) xs))"
      by simp_all
    have "userId session \<noteq> userId new"
      and "userId session \<notin> set (map (\<lambda>(k, session). userId session) xs)"
      using Cons.prems by (auto simp: x)
    with sub have "userId session \<notin> set (map (\<lambda>(k, session). userId session) (AList.update sock new xs))"
      by blast
    with d sub False show ?thesis
      by (simp add: x) blast
  qed
qed

lemma update_list_all:
  "P (sock, new) \<Longrightarrow> list_all P xs \<Longrightarrow> list_all P (AList.update sock new xs)"
  by (induction xs) auto

lemma touch_first_session_same:
  "map fst (touch_first_session uid now xs) = map fst xs \<and>
   map (\<lambda>(k, session). userId session) (touch_first_session uid now xs)
     = map (\<lambda>(k, session). userId session) xs \<and>
   map (\<lambda>(k, session). (socketId session, roomId session)) (touch_first_session uid now xs)
     = map (\<lambda>(k, session). (socketId session, roomId session)) xs"
  by (induction xs) auto

lemma touch_first_session_list_all:
  "list_all (\<lambda>(k, session). socketId session = k \<and> R (userId session) = Some (roomId session)) xs \<Longrightarrow>
   list_all (\<lambda>(k, session). socketId session = k \<and> R (userId session) = Some (roomId session))
     (touch_first_session uid now xs)"
  by (induction xs) auto

lemma userRooms_cases [simp]:
  "userRooms (case x of None \<Rightarrow> s | Some room \<Rightarrow> if c room then f room else s) = 
   (case x of None \<Rightarrow> userRooms s | Some room \<Rightarrow> if c room then userRooms (f room) else userRooms s)"
  by (cases x) auto

lemma removeUserFromAllRooms_sessions:
  "userSessions (removeUserFromAllRooms uid s) = delete_first_session uid (userSessions s) \<and>
   userRooms (removeUserFromAllRooms uid s) = (userRooms s)(uid := None)"
  by (cases "userRooms s uid") (simp_all add: removeUserFromAllRooms_def Let_def)

lemma session_inv_removeUserFromAllRooms:
  assumes "session_inv s"
  shows "session_inv (removeUserFromAllRooms uid s) \<and>
         uid \<notin> set (map (\<lambda>(k, session). userId session) (userSessions (removeUserFromAllRooms uid s)))"
proof -
  have d: "distinct (map (\<lambda>(k, session). userId session) (userSessions s))"
    using assms by (simp add: session_inv_def)
  have e: "userSessions (removeUserFromAllRooms uid s) =
             filter (\<lambda>(k, session). userId session \<noteq> uid) (userSessions s)"
    using removeUserFromAllRooms_sessions [of uid s] delete_first_session_filter [OF d, of uid]
    by simp
  have r: "userRooms (removeUserFromAllRooms uid s) = (userRooms s)(uid := None)"
    using removeUserFromAllRooms_sessions [of uid s] by simp
  show ?thesis
    using assms unfolding session_inv_def e r
    by (auto simp: distinct_map_filter list_all_iff)
qed

lemma session_inv_addUserToRoom:
  assumes "session_inv s"
  shows "session_inv (addUserToRoom sock uid name room now s)"
proof -
  let ?s1 = "removeUserFromAllRooms uid s"
  let ?new = "\<lparr>userId = uid, username = name, socketId = sock, roomId = room,
               joinTime = now, lastActivity = now\<rparr>"
  from session_inv_removeUserFromAllRooms [OF assms, of uid] have
    inv1: "session_inv ?s1" and
    gone: "uid \<notin> set (map (\<lambda>(k, session). userId session) (userSessions ?s1))" by simp_all
  have us: "userSessions (addUserToRoom sock uid name room now s) = AList.update sock ?new (userSessions ?s1)"
    and ur: "userRooms (addUserToRoom sock uid name room now s) = (userRooms ?s1)(uid \<mapsto> room)"
    by (simp_all add: addUserToRoom_def Let_def)
  have gone': "userId ?new \<notin> set (map (\<lambda>(k, session). userId session) (userSessions ?s1))"
    using gone by simp
  have k: "distinct (map fst (AList.update sock ?new (userSessions ?s1)))"
    using inv1 by (simp add: session_inv_def AList.distinct_update)
  have u: "distinct (map (\<lambda>(k, session). userId session) (AList.update sock ?new (userSessions ?s1)))"
    using update_userIds_distinct [OF _ gone', of sock] inv1 by (simp add: session_inv_def)
  have "list_all (\<lambda>(k, session). socketId session = k \<and>
                  ((userRooms ?s1)(uid \<mapsto> room)) (userId session) = Some (roomId session))
          (userSessions ?s1)"
    using inv1 gone by (auto simp: session_inv_def list_all_iff)
  then have l: "list_all (\<lambda>(k, session). socketId session = k \<and>
                  ((userRooms ?s1)(uid \<mapsto> room)) (userId session) = Some (roomId session))
          (AList.update sock ?new (userSessions ?s1))"
    by (intro update_list_all) simp_all
  show ?thesis
    unfolding session_inv_def us ur using k u l by simp
qed

lemma session_inv_removeUserFromRoom:
  assumes "session_inv s"
  shows "session_inv (snd (removeUserFromRoom sock s))"
proof (cases "map_of (userSessions s) sock")
  case None
  then show ?thesis using assms by (simp add: removeUserFromRoom_def)
next
  case (Some session)
  then have mem: "(sock, session) \<in> set (userSessions s)" by (rule map_of_SomeD)
  have inj: "inj_on (\<lambda>(k, session). userId session) (set (userSessions s))"
    using assms by (simp add: session_inv_def distinct_map)
  have other: "\<And>k' session'. (k', session') \<in> set (userSessions s) \<Longrightarrow> k' \<noteq> sock \<Longrightarrow>
                 userId session' \<noteq> userId session"
  proof
    fix k' session'
    assume m: "(k', session') \<in> set (userSessions s)" and ne: "k' \<noteq> sock"
      and eq: "userId session' = userId session"
    from inj_onD [OF inj _ m mem] eq have "(k', session') = (sock, session)" by simp
    with ne show False by simp
  qed
  have us: "userSessions (snd (removeUserFromRoom sock s)) =
              filter (\<lambda>(k', _). sock \<noteq> k') (userSessions s)"
    and ur: "userRooms (snd (removeUserFromRoom sock s)) = (userRooms s)(userId session := None)"
    using Some by (simp_all add: removeUserFromRoom_def AList.delete_eq)
  show ?thesis
    using assms other unfolding session_inv_def us ur
    by (auto simp: distinct_map_filter list_all_iff)
qed

lemma session_inv_cleanup:
  "session_inv s \<Longrightarrow> session_inv (foldl (\<lambda>s' k. snd (removeUserFromRoom k s')) s ks)"
  by (induction ks arbitrary: s) (simp_all add: session_inv_removeUserFromRoom)

lemma session_inv_updateUserActivity:
  assumes "session_inv s"
  shows "session_inv (updateUserActivity uid now s)"
  using assms touch_first_session_same [of uid now "userSessions s"]
    touch_first_session_list_all [of "userRooms s" "userSessions s" uid now]
  by (simp add: session_inv_def updateUserActivity_def)

lemma session_inv_disconnectUser:
  "session_inv s \<Longrightarrow> session_inv (disconnectUser uid s)"
  by (auto simp: disconnectUser_def session_inv_removeUserFromRoom split: option.splits)

lemma session_inv_apply_op:
  assumes "session_inv s"
  shows "session_inv (apply_op op s)"
proof (cases op)
  case (AddUserToRoom sock uid name room now)
  then show ?thesis using assms by (simp add: session_inv_addUserToRoom)
next
  case (RemoveUserFromRoom sock)
  then show ?thesis using assms by (simp add: session_inv_removeUserFromRoom)
next
  case (RemoveUserFromAllRooms uid)
  then show ?thesis using session_inv_removeUserFromAllRooms [OF assms, of uid] by simp
next
  case (UpdateUserActivity uid now)
  then show ?thesis using assms by (simp add: session_inv_updateUserActivity)
next
  case (IncrementMessageCount room)
  then show ?thesis using assms by (simp add: session_inv_def incrementMessageCount_def)
next
  case (CleanupInactiveUsers threshold now)
  then show ?thesis using assms by (simp add: cleanupInactiveUsers_def Let_def session_inv_cleanup)
next
  case (CheckRateLimit sock maxRequests windowMs now)
  then show ?thesis using assms by (simp add: session_inv_def checkRateLimit_def Let_def)
next
  case (AddTypingUser room uid)
  then show ?thesis using assms by (simp add: session_inv_def addTypingUser_def)
next
  case (RemoveTypingUser room uid)
  then show ?thesis using assms by (simp add: session_inv_def removeTypingUser_def)
next
  case (DisconnectUser uid)
  then show ?thesis using assms by (simp add: session_inv_disconnectUser)
qed

lemma session_inv_foldl:
  "session_inv s \<Longrightarrow> session_inv (foldl (\<lambda>s op. apply_op op s) s ops)"
  by (induction ops arbitrary: s) (simp_all add: session_inv_apply_op)

lemma session_inv_run_ops: "session_inv (run_ops ops)"
  unfolding run_ops_def
  by (rule session_inv_foldl) (simp add: session_inv_def empty_sessions_def)


lemma map_of_filter_key:
  "distinct (map fst xs) \<Longrightarrow> (k, v) \<in> set xs \<Longrightarrow> \<not> P (k, v) \<Longrightarrow> map_of (filter P xs) k = None"
proof (induction xs)
  case Nil
  then show ?case by simp
next
  case (Cons x xs)
  show ?case
  proof (cases "x = (k, v)")
    case True
    then have "k \<notin> fst ` set xs" using Cons.prems(1) by auto
    then have "k \<notin> fst ` set (filter P xs)" by auto
    then have "map_of (filter P xs) k = None" by (simp add: map_of_eq_None_iff)
    with True Cons.prems(3) show ?thesis by simp
  next
    case False
    then have "(k, v) \<in> set xs" using Cons.prems(2) by simp
    moreover have "fst x \<noteq> k"
    proof
      assume "fst x = k"
      moreover have "k \<in> fst ` set xs" using \<open>(k, v) \<in> set xs\<close> by force
      ultimately show False using Cons.prems(1) by simp
    qed
    ultimately show ?thesis using Cons by (cases x) auto
  qed
qed

lemma filter_update_new_user:
  "uid \<notin> set (map (\<lambda>(k, session). userId session) ys) \<Longrightarrow> userId new = uid \<Longrightarrow>
   filter (\<lambda>(k, session). userId session = uid) (AList.update sock new ys) = [(sock, new)]"
proof (induction ys)
  case Nil
  then show ?case by simp
next
  case (Cons y ys)
  obtain k session where y: "y = (k, session)" by (cases y)
  have rest: "filter (\<lambda>(k, session). userId session = uid) ys = []"
    using Cons.prems(1) by (auto simp: filter_empty_conv)
  show ?case
    using Cons y rest by (cases "k = sock") auto
qed

lemma members_set_delete:
  "members (set_delete m k v) k' = (if k' = k then members m k - {v} else members m k')"
  by (auto simp: members_def set_delete_def split: option.splits)

lemma members_set_add:
  "members (set_add m k v) k' = (if k' = k then insert v (members m k) else members m k')"
  by (auto simp: members_def set_add_def split: option.splits)

lemma removeUserFromAllRooms_rooms:
  assumes "userRooms s uid = Some room" and "room \<noteq> []"
  shows "roomUsers (removeUserFromAllRooms uid s) = set_delete (roomUsers s) room uid \<and>
         typingUsers (removeUserFromAllRooms uid s) = set_delete (typingUsers s) room uid"
  using assms by (simp add: removeUserFromAllRooms_def Let_def)

lemma eviction:
  assumes inv: "session_inv s"
    and first: "getUserBySocketId c1 s = Some first" and uid: "userId first = uid"
    and other: "c2 \<noteq> c1"
  shows "getUserBySocketId c1 (removeUserFromAllRooms uid s) = None \<and>
         getUserSocketIds uid (removeUserFromAllRooms uid s) = [] \<and>
         (roomId first \<noteq> [] \<longrightarrow>
            uid \<notin> members (roomUsers (removeUserFromAllRooms uid s)) (roomId first) \<and>
            uid \<notin> members (typingUsers (removeUserFromAllRooms uid s)) (roomId first)) \<and>
         getUserBySocketId c1 (addUserToRoom c2 uid name room now s) = None \<and>
         getUserBySocketId c2 (addUserToRoom c2 uid name room now s) =
           Some \<lparr>userId = uid, username = name, socketId = c2, roomId = room,
                 joinTime = now, lastActivity = now\<rparr> \<and>
         getUserSocketIds uid (addUserToRoom c2 uid name room now s) = [c2] \<and>
         (roomId first \<noteq> [] \<longrightarrow>
            uid \<notin> members (typingUsers (addUserToRoom c2 uid name room now s)) (roomId first) \<and>
            (roomId first \<noteq> room \<longrightarrow>
               uid \<notin> members (roomUsers (addUserToRoom c2 uid name room now s)) (roomId first))) \<and>
         (\<forall>other. other \<noteq> roomId first \<longrightarrow>
            members (typingUsers (addUserToRoom c2 uid name room now s)) other =
              members (typingUsers s) other)"
proof -
  let ?s1 = "removeUserFromAllRooms uid s"
  let ?s2 = "addUserToRoom c2 uid name room now s"
  let ?new = "\<lparr>userId = uid, username = name, socketId = c2, roomId = room,
               joinTime = now, lastActivity = now\<rparr>"
  have mem: "(c1, first) \<in> set (userSessions s)"
    using first by (simp add: getUserBySocketId_def map_of_SomeD)
  have keys: "distinct (map fst (userSessions s))"
    and users: "distinct (map (\<lambda>(k, session). userId session) (userSessions s))"
    using inv by (simp_all add: session_inv_def)
  have room1: "userRooms s uid = Some (roomId first)"
    using inv mem uid by (auto simp: session_inv_def list_all_iff)
  have e: "userSessions ?s1 = filter (\<lambda>(k, session). userId session \<noteq> uid) (userSessions s)"
    using removeUserFromAllRooms_sessions [of uid s] delete_first_session_filter [OF users, of uid]
    by simp
  have gone: "uid \<notin> set (map (\<lambda>(k, session). userId session) (userSessions ?s1))"
    unfolding e by auto
  have a1: "getUserBySocketId c1 ?s1 = None"
    unfolding getUserBySocketId_def e
    by (rule map_of_filter_key [OF keys mem]) (simp add: uid)
  have a2: "getUserSocketIds uid ?s1 = []"
    using gone by (auto simp: getUserSocketIds_def filter_empty_conv)
  have a3: "roomId first \<noteq> [] \<longrightarrow>
            uid \<notin> members (roomUsers ?s1) (roomId first) \<and>
            uid \<notin> members (typingUsers ?s1) (roomId first)"
    using removeUserFromAllRooms_rooms [OF room1] by (simp add: members_set_delete)
  have us: "userSessions ?s2 = AList.update c2 ?new (userSessions ?s1)"
    and ty: "typingUsers ?s2 = typingUsers ?s1"
    and ru: "roomUsers ?s2 = set_add (roomUsers ?s1) room uid"
    by (simp_all add: addUserToRoom_def Let_def)
  have a4: "getUserBySocketId c1 ?s2 = None"
    using a1 other by (simp add: getUserBySocketId_def us update_conv')
  have a5: "getUserBySocketId c2 ?s2 = Some ?new"
    by (simp add: getUserBySocketId_def us update_conv')
  have a6: "getUserSocketIds uid ?s2 = [c2]"
    unfolding getUserSocketIds_def us
    using filter_update_new_user [OF gone, of ?new c2] by simp
  have a7: "roomId first \<noteq> [] \<longrightarrow>
            uid \<notin> members (typingUsers ?s2) (roomId first) \<and>
            (roomId first \<noteq> room \<longrightarrow> uid \<notin> members (roomUsers ?s2) (roomId first))"
    using a3 by (simp add: ty ru members_set_add)
  have "typingUsers ?s1 = typingUsers s \<or> typingUsers ?s1 = set_delete (typingUsers s) (roomId first) uid"
    using room1 by (simp add: removeUserFromAllRooms_def Let_def)
  then have a8: "\<forall>other. other \<noteq> roomId first \<longrightarrow>
            members (typingUsers ?s2) other = members (typingUsers s) other"
    unfolding ty by (auto simp: members_set_delete)
  show ?thesis
    using a1 a2 a3 a4 a5 a6 a7 a8 by (intro conjI)
qed

text \<open>
  C5, as the code has it. After every run of registry operations from the empty registry
  there is at most one session per connection and at most one per user. When a user who
  has a session on one connection joins from another, \<open>addUserToRoom\<close> first removes
  that session and, when the room id of that session is not the empty string, the user's
  membership of that room and the user's typing entry in that room
  (\<open>removeUserFromAllRooms\<close>); then it registers the new session, which is the user's
  only one. Typing entries of the user in other rooms are not touched.
\<close>

theorem one_session_per_connection_and_user:
  "distinct (map fst (userSessions (run_ops ops))) \<and>
   distinct (map (\<lambda>(k, session). userId session) (userSessions (run_ops ops))) \<and>
   length (getUserSocketIds uid (run_ops ops)) \<le> 1 \<and>
   (getUserBySocketId c1 (run_ops ops) = Some first \<and> userId first = uid \<and> c2 \<noteq> c1 \<longrightarrow>
      getUserBySocketId c1 (removeUserFromAllRooms uid (run_ops ops)) = None \<and>
      getUserSocketIds uid (removeUserFromAllRooms uid (run_ops ops)) = [] \<and>
      (roomId first \<noteq> [] \<longrightarrow>
         uid \<notin> members (roomUsers (removeUserFromAllRooms uid (run_ops ops))) (roomId first) \<and>
         uid \<notin> members (typingUsers (removeUserFromAllRooms uid (run_ops ops))) (roomId first)) \<and>
      getUserBySocketId c1 (run_ops (ops @ [AddUserToRoom c2 uid name room now])) = None \<and>
      getUserBySocketId c2 (run_ops (ops @ [AddUserToRoom c2 uid name room now])) =
        Some \<lparr>userId = uid, username = name, socketId = c2, roomId = room,
              joinTime = now, lastActivity = now\<rparr> \<and>
      getUserSocketIds uid (run_ops (ops @ [AddUserToRoom c2 uid name room now])) = [c2] \<and>
      (roomId first \<noteq> [] \<longrightarrow>
         uid \<notin> members (typingUsers (run_ops (ops @ [AddUserToRoom c2 uid name room now]))) (roomId first) \<and>
         (roomId first \<noteq> room \<longrightarrow>
            uid \<notin> members (roomUsers (run_ops (ops @ [AddUserToRoom c2 uid name room now]))) (roomId first))) \<and>
      (\<forall>other. other \<noteq> roomId first \<longrightarrow>
         members (typingUsers (run_ops (ops @ [AddUserToRoom c2 uid name room now]))) other =
           members (typingUsers (run_ops ops)) other))"
proof -
  have inv: "session_inv (run_ops ops)" by (rule session_inv_run_ops)
  have step: "run_ops (ops @ [AddUserToRoom c2 uid name room now]) =
                addUserToRoom c2 uid name room now (run_ops ops)"
    by (simp add: run_ops_def)
  have d: "distinct (map (\<lambda>(k, session). userId session) (userSessions (run_ops ops)))"
    using inv by (simp add: session_inv_def)
  have "distinct (map (\<lambda>(k, session). userId session)
          (filter (\<lambda>(k, session). userId session = uid) (userSessions (run_ops ops))))"
    using d by (rule distinct_map_filter)
  moreover have "set (map (\<lambda>(k, session). userId session)
          (filter (\<lambda>(k, session). userId session = uid) (userSessions (run_ops ops)))) \<subseteq> {uid}"
    by auto
  ultimately have "length (map (\<lambda>(k, session). userId session)
          (filter (\<lambda>(k, session). userId session = uid) (userSessions (run_ops ops)))) \<le> card {uid}"
    by (metis distinct_card card_mono finite.emptyI finite.insertI)
  then have one: "length (getUserSocketIds uid (run_ops ops)) \<le> 1"
    by (simp add: getUserSocketIds_def)
  show ?thesis
    unfolding step
    using inv one eviction [OF inv, of c1 first uid c2 name room now]
    by (simp add: session_inv_def)
qed


theorem one_session_per_connection_and_user_witness:
  "getUserBySocketId ''s1'' (run_ops ann_typing) = Some ann_session \<and>
   userId ann_session = ''u1'' \<and> ''s2'' \<noteq> ''s1'' \<and> roomId ann_session \<noteq> [] \<and>
   roomId ann_session \<noteq> ''r2'' \<and>
   ''u1'' \<in> members (typingUsers (run_ops ann_typing)) ''r1'' \<and>
   ''u1'' \<in> members (roomUsers (run_ops ann_typing)) ''r1'' \<and>
   getUserBySocketId ''s1'' (run_ops (ann_typing @ [AddUserToRoom ''s2'' ''u1'' ''Ann'' ''r2'' 7])) = None \<and>
   getUserSocketIds ''u1'' (run_ops (ann_typing @ [AddUserToRoom ''s2'' ''u1'' ''Ann'' ''r2'' 7])) = [''s2''] \<and>
   ''u1'' \<notin> members (typingUsers (run_ops (ann_typing @ [AddUserToRoom ''s2'' ''u1'' ''Ann'' ''r2'' 7])))
             (roomId ann_session) \<and>
   ''u1'' \<notin> members (roomUsers (run_ops (ann_typing @ [AddUserToRoom ''s2'' ''u1'' ''Ann'' ''r2'' 7])))
             (roomId ann_session)"
proof -
  have s: "run_ops ann_typing =
     \<lparr>userSessions = [(''s1'', ann_session)], userRooms = [''u1'' \<mapsto> ''r1''],
      roomUsers = [''r1'' \<mapsto> {''u1''}], roomMessageCounts = Map.empty,
      typingUsers = [''r1'' \<mapsto> {''u1''}], rateLimitMap = Map.empty\<rparr>"
    by (simp add: run_ops_def ann_typing_def addUserToRoom_def removeUserFromAllRooms_def
          addTypingUser_def empty_sessions_def set_add_def ann_session_def Let_def)
  have h1: "getUserBySocketId ''s1'' (run_ops ann_typing) = Some ann_session"
    by (simp add: s getUserBySocketId_def)
  have h2: "userId ann_session = ''u1''" and h4: "roomId ann_session \<noteq> []"
    and h5: "roomId ann_session \<noteq> ''r2''"
    by (simp_all add: ann_session_def)
  have h3: "''s2'' \<noteq> ''s1''" by simp
  have t: "''u1'' \<in> members (typingUsers (run_ops ann_typing)) ''r1''"
    and m: "''u1'' \<in> members (roomUsers (run_ops ann_typing)) ''r1''"
    by (simp_all add: s members_def)
  note inst = one_session_per_connection_and_user
      [where ops = ann_typing and ?c1.0 = "''s1''" and first = ann_session and uid = "''u1''"
         and ?c2.0 = "''s2''" and name = "''Ann''" and room = "''r2''" and now = 7]
  note ev = inst [THEN conjunct2, THEN conjunct2, THEN conjunct2, THEN mp, OF conjI [OF h1 conjI [OF h2 h3]]]
  note after = ev [THEN conjunct2, THEN conjunct2, THEN conjunct2]
  have a1: "getUserBySocketId ''s1'' (run_ops (ann_typing @ [AddUserToRoom ''s2'' ''u1'' ''Ann'' ''r2'' 7])) = None"
    by (rule after [THEN conjunct1])
  have a2: "getUserSocketIds ''u1'' (run_ops (ann_typing @ [AddUserToRoom ''s2'' ''u1'' ''Ann'' ''r2'' 7])) = [''s2'']"
    by (rule after [THEN conjunct2, THEN conjunct2, THEN conjunct1])
  note rooms = after [THEN conjunct2, THEN conjunct2, THEN conjunct2, THEN conjunct1, THEN mp, OF h4]
  have a3: "''u1'' \<notin> members (typingUsers (run_ops (ann_typing @ [AddUserToRoom ''s2'' ''u1'' ''Ann'' ''r2'' 7])))
             (roomId ann_session)"
    by (rule rooms [THEN conjunct1])
  have a4: "''u1'' \<notin> members (roomUsers (run_ops (ann_typing @ [AddUserToRoom ''s2'' ''u1'' ''Ann'' ''r2'' 7])))
             (roomId ann_session)"
    by (rule rooms [THEN conjunct2, THEN mp, OF h5])
  show ?thesis
    using h1 h2 h3 h4 h5 t m a1 a2 a3 a4 by (intro conjI)
qed

text \<open>
  C5 as stated fails on what the eviction removes. Ann, in room r1 on connection s1,
  is marked as typing in room r9 (the typing event names its room itself); when she joins
  room r2 from connection s2 her first session is gone and her typing entry in r9 is still
  there. And a session registered with the empty room id leaves its membership and its
  typing entry behind, since \<^verbatim>\<open>if (roomId)\<close> is false for it.
\<close>

theorem eviction_leaves_entries_behind:
  "getUserBySocketId ''s1''
     (run_ops [AddUserToRoom ''s1'' ''u1'' ''Ann'' ''r1'' 0, AddTypingUser ''r9'' ''u1'',
               AddUserToRoom ''s2'' ''u1'' ''Ann'' ''r2'' 7]) = None \<and>
   ''u1'' \<in> members (typingUsers
     (run_ops [AddUserToRoom ''s1'' ''u1'' ''Ann'' ''r1'' 0, AddTypingUser ''r9'' ''u1'',
               AddUserToRoom ''s2'' ''u1'' ''Ann'' ''r2'' 7])) ''r9'' \<and>
   ''u1'' \<in> members (roomUsers
     (run_ops [AddUserToRoom ''s1'' ''u1'' ''Ann'' [] 0, AddTypingUser [] ''u1'',
               AddUserToRoom ''s2'' ''u1'' ''Ann'' ''r2'' 7])) [] \<and>
   ''u1'' \<in> members (typingUsers
     (run_ops [AddUserToRoom ''s1'' ''u1'' ''Ann'' [] 0, AddTypingUser [] ''u1'',
               AddUserToRoom ''s2'' ''u1'' ''Ann'' ''r2'' 7])) []"
  by (simp add: run_ops_def addUserToRoom_def removeUserFromAllRooms_def addTypingUser_def
        empty_sessions_def set_add_def set_delete_def members_def getUserBySocketId_def Let_def)


section \<open>Moderation: the ban check on send and banUser\<close>

lemma removeUserFromRoom_gone:
  "getUserBySocketId sock (snd (removeUserFromRoom sock s)) = None"
  by (cases "map_of (userSessions s) sock")
     (simp_all add: removeUserFromRoom_def getUserBySocketId_def delete_conv')

lemma removeUserFromRoom_user_gone:
  assumes "session_inv s" and "getUserBySocketId sock s = Some session"
  shows "getUserSocketIds (userId session) (snd (removeUserFromRoom sock s)) = []"
proof -
  have look: "map_of (userSessions s) sock = Some session"
    using assms(2) by (simp add: getUserBySocketId_def)
  then have mem: "(sock, session) \<in> set (userSessions s)" by (rule map_of_SomeD)
  have inj: "inj_on (\<lambda>(k, session). userId session) (set (userSessions s))"
    using assms(1) by (simp add: session_inv_def distinct_map)
  have rest: "\<And>k' session'. (k', session') \<in> set (userSessions s) \<Longrightarrow> k' \<noteq> sock \<Longrightarrow>
                 userId session' \<noteq> userId session"
  proof
    fix k' session'
    assume m: "(k', session') \<in> set (userSessions s)" and ne: "k' \<noteq> sock"
      and eq: "userId session' = userId session"
    from inj_onD [OF inj _ m mem] eq have "(k', session') = (sock, session)" by simp
    with ne show False by simp
  qed
  have "userSessions (snd (removeUserFromRoom sock s)) = filter (\<lambda>(k', _). sock \<noteq> k') (userSessions s)"
    using look by (simp add: removeUserFromRoom_def AList.delete_eq)
  then show ?thesis
    using rest by (auto simp: getUserSocketIds_def filter_empty_conv)
qed

lemma session_inv_checkRateLimit:
  "session_inv (snd (checkRateLimit sock maxRequests windowMs now s)) = session_inv s \<and>
   getUserBySocketId c (snd (checkRateLimit sock maxRequests windowMs now s)) = getUserBySocketId c s"
  by (simp add: checkRateLimit_def Let_def session_inv_def getUserBySocketId_def)

text \<open>
  C6. A send that passes the rate limit while the user collection records the sender as
  banned emits one ban notice to that connection, removes the session of the connection,
  disconnects it and leaves the message buffer as it was, whatever the message and whether
  or not the connection has a session: the ban check comes before the session lookup, the
  identity check and the validation of the content. When the session of the connection is
  the sender's, in a registry with one session per user, the sender has no session left.
\<close>

theorem banned_sender_is_disconnected:
  assumes "fst (checkRateLimit client maxRequests windowMs now (sessions st))"
    and "bs_isBanned (checkUserBannedStatus uid (users st))"
  shows "emitted (handleMessage cfg maxRequests windowMs newId now client uid data st) =
           emitted st @ [(ToSocket client,
                          UserBannedEvent (bs_bannedReason (checkUserBannedStatus uid (users st)))
                                          (bs_bannedBy (checkUserBannedStatus uid (users st))))] \<and>
         sessions (handleMessage cfg maxRequests windowMs newId now client uid data st) =
           snd (removeUserFromRoom client
                  (snd (checkRateLimit client maxRequests windowMs now (sessions st)))) \<and>
         getUserBySocketId client
           (sessions (handleMessage cfg maxRequests windowMs newId now client uid data st)) = None \<and>
         client \<in> disconnected (handleMessage cfg maxRequests windowMs newId now client uid data st) \<and>
         buffer (handleMessage cfg maxRequests windowMs newId now client uid data st) = buffer st \<and>
         users (handleMessage cfg maxRequests windowMs newId now client uid data st) = users st \<and>
         (session_inv (sessions st) \<and> getUserBySocketId client (sessions st) = Some session \<and>
          userId session = uid \<longrightarrow>
            getUserSocketIds uid
              (sessions (handleMessage cfg maxRequests windowMs newId now client uid data st)) = [])"
proof -
  obtain allowed sm1 where c: "checkRateLimit client maxRequests windowMs now (sessions st) = (allowed, sm1)"
    by (cases "checkRateLimit client maxRequests windowMs now (sessions st)")
  have a: allowed using assms(1) by (simp add: c)
  have h: "handleMessage cfg maxRequests windowMs newId now client uid data st =
             st\<lparr>sessions := snd (removeUserFromRoom client sm1),
                disconnected := insert client (disconnected st),
                emitted := emitted st @ [(ToSocket client,
                          UserBannedEvent (bs_bannedReason (checkUserBannedStatus uid (users st)))
                                          (bs_bannedBy (checkUserBannedStatus uid (users st))))]\<rparr>"
    using a assms(2) by (simp add: handleMessage_def c Let_def emit_def)
  have sm1: "sm1 = snd (checkRateLimit client maxRequests windowMs now (sessions st))"
    by (simp add: c)
  have own: "session_inv (sessions st) \<and> getUserBySocketId client (sessions st) = Some session \<and>
          userId session = uid \<longrightarrow>
            getUserSocketIds uid (snd (removeUserFromRoom client sm1)) = []"
  proof (intro impI, elim conjE)
    assume i: "session_inv (sessions st)" and g: "getUserBySocketId client (sessions st) = Some session"
      and u: "userId session = uid"
    have "session_inv sm1" and "getUserBySocketId client sm1 = Some session"
      using i g session_inv_checkRateLimit [of client maxRequests windowMs now "sessions st" client]
      by (simp_all add: sm1)
    from removeUserFromRoom_user_gone [OF this] u
    show "getUserSocketIds uid (snd (removeUserFromRoom client sm1)) = []" by simp
  qed
  show ?thesis
    unfolding h c using own by (simp add: removeUserFromRoom_gone)
qed

theorem banned_sender_is_disconnected_witness:
  "fst (checkRateLimit ''s1'' 30 60000 9 (sessions ann_banned_online)) \<and>
   bs_isBanned (checkUserBannedStatus ''u1'' (users ann_banned_online)) \<and>
   getUserBySocketId ''s1'' (sessions ann_banned_online) = Some ann_session \<and>
   emitted (handleMessage default_config 30 60000 ''m1'' 9 ''s1'' ''u1'' hello ann_banned_online) =
     [(ToSocket ''s1'', UserBannedEvent (Some ''spam'') (Some ''admin''))] \<and>
   getUserBySocketId ''s1''
     (sessions (handleMessage default_config 30 60000 ''m1'' 9 ''s1'' ''u1'' hello ann_banned_online)) = None \<and>
   ''s1'' \<in> disconnected (handleMessage default_config 30 60000 ''m1'' 9 ''s1'' ''u1'' hello ann_banned_online) \<and>
   buffer (handleMessage default_config 30 60000 ''m1'' 9 ''s1'' ''u1'' hello ann_banned_online) = empty_buffer \<and>
   getUserSocketIds ''u1''
     (sessions (handleMessage default_config 30 60000 ''m1'' 9 ''s1'' ''u1'' hello ann_banned_online)) = []"
proof -
  have sm: "sessions ann_banned_online =
     \<lparr>userSessions = [(''s1'', ann_session)], userRooms = [''u1'' \<mapsto> ''r1''],
      roomUsers = [''r1'' \<mapsto> {''u1''}], roomMessageCounts = Map.empty,
      typingUsers = Map.empty, rateLimitMap = Map.empty\<rparr>"
    by (simp add: ann_banned_online_def ann_online_def empty_app_def run_ops_def addUserToRoom_def
          removeUserFromAllRooms_def empty_sessions_def set_add_def ann_session_def Let_def)
  have e: "emitted ann_banned_online = []" and b: "buffer ann_banned_online = empty_buffer"
    by (simp_all add: ann_banned_online_def ann_online_def empty_app_def)
  have st: "checkUserBannedStatus ''u1'' (users ann_banned_online) =
              \<lparr>bs_isBanned = True, bs_bannedReason = Some ''spam'', bs_bannedBy = Some ''admin''\<rparr>"
    by (simp add: checkUserBannedStatus_def ann_banned_online_def ann_def)
  have h1: "fst (checkRateLimit ''s1'' 30 60000 9 (sessions ann_banned_online))"
    by (simp add: sm checkRateLimit_def Let_def)
  have h2: "bs_isBanned (checkUserBannedStatus ''u1'' (users ann_banned_online))"
    by (simp add: st)
  have h3: "getUserBySocketId ''s1'' (sessions ann_banned_online) = Some ann_session"
    by (simp add: sm getUserBySocketId_def)
  note inst = banned_sender_is_disconnected [OF h1 h2, where cfg = default_config
      and newId = "''m1''" and data = hello and session = ann_session]
  have h4: "session_inv (sessions ann_banned_online)"
    by (simp add: sm session_inv_def ann_session_def)
  have h5: "userId ann_session = ''u1''"
    by (simp add: ann_session_def)
  have a1: "emitted (handleMessage default_config 30 60000 ''m1'' 9 ''s1'' ''u1'' hello ann_banned_online) =
     [(ToSocket ''s1'', UserBannedEvent (Some ''spam'') (Some ''admin''))]"
    using inst [THEN conjunct1] by (simp add: e st)
  note r = inst [THEN conjunct2, THEN conjunct2]
  have a4: "buffer (handleMessage default_config 30 60000 ''m1'' 9 ''s1'' ''u1'' hello ann_banned_online) = empty_buffer"
    using r [THEN conjunct2, THEN conjunct2, THEN conjunct1] by (simp only: b)
  note a5 = r [THEN conjunct2, THEN conjunct2, THEN conjunct2, THEN conjunct2, THEN mp,
              OF conjI [OF h4 conjI [OF h3 h5]]]
  show ?thesis
    using h1 h2 h3 a1 r [THEN conjunct1] r [THEN conjunct2, THEN conjunct1] a4 a5 by (intro conjI)
qed

lemma getUserSocketIds_disconnectUser:
  assumes "session_inv s"
  shows "getUserSocketIds uid (disconnectUser uid s) = []"
proof (cases "find (\<lambda>(k, session). userId session = uid) (userSessions s)")
  case None
  then have "filter (\<lambda>(k, session). userId session = uid) (userSessions s) = []"
    by (auto simp: find_None_iff filter_empty_conv)
  with None show ?thesis by (simp add: disconnectUser_def getUserSocketIds_def)
next
  case (Some found)
  obtain k session where f: "found = (k, session)" by (cases found)
  from Some f have mem: "(k, session) \<in> set (userSessions s)" and u: "userId session = uid"
    by (auto simp: find_Some_iff in_set_conv_nth)
  have keys: "distinct (map fst (userSessions s))" using assms by (simp add: session_inv_def)
  have look: "getUserBySocketId k s = Some session"
    using keys mem by (simp add: getUserBySocketId_def)
  from removeUserFromRoom_user_gone [OF assms look] u Some f show ?thesis
    by (simp add: disconnectUser_def)
qed

lemma banned_notices_emit:
  "banned_notices (emit to ev st) =
     banned_notices st @ (case (to, ev) of (ToSocket sock, UserBannedEvent r b) \<Rightarrow> [sock] | _ \<Rightarrow> [])"
  by (simp add: banned_notices_def emit_def)

text \<open>
  What \<open>banUser\<close> does right: it rejects exactly an unknown or an already banned user
  and then changes nothing; otherwise it records the ban and removes the user's session.
\<close>

lemma banUser_rejects:
  "fst (banUser dto now st) =
     (case users st (ban_userId dto) of
        None \<Rightarrow> Inl NotFoundException
      | Some user \<Rightarrow> if isBanned user then Inl BadRequestException else Inr ()) \<and>
   (fst (banUser dto now st) \<noteq> Inr () \<longrightarrow> snd (banUser dto now st) = st)"
  by (auto simp: banUser_def Let_def split: option.splits)

lemma emit_frame:
  "sessions (emit to ev st) = sessions st \<and> users (emit to ev st) = users st \<and>
   buffer (emit to ev st) = buffer st \<and> serverSet (emit to ev st) = serverSet st"
  by (simp add: emit_def)

lemma foldl_emit_frame:
  "sessions (foldl (\<lambda>acc sock. emit (ToSocket sock) ev acc) st socks) = sessions st \<and>
   users (foldl (\<lambda>acc sock. emit (ToSocket sock) ev acc) st socks) = users st"
  by (induction socks arbitrary: st) (simp_all add: emit_frame)

lemma banUser_persists:
  assumes "fst (banUser dto now st) = Inr ()"
  shows "bs_isBanned (checkUserBannedStatus (ban_userId dto) (users (snd (banUser dto now st)))) \<and>
         sessions (snd (banUser dto now st)) = disconnectUser (ban_userId dto) (sessions st)"
proof -
  obtain user where u: "users st (ban_userId dto) = Some user" and nb: "\<not> isBanned user"
    using assms by (auto simp: banUser_def Let_def split: option.splits if_splits)
  show ?thesis
    using u nb
    by (simp add: banUser_def Let_def foldl_emit_frame emit_frame checkUserBannedStatus_def)
qed

text \<open>
  Where it goes wrong: the socket ids are looked up after \<open>disconnectUser\<close> has removed
  the user's session, so in every registry state that the operations can reach the list is
  empty and no \<^verbatim>\<open>user:banned\<close> notice is sent.
\<close>

lemma banUser_never_notifies:
  assumes "session_inv (sessions st)"
  shows "banned_notices (snd (banUser dto now st)) = banned_notices st"
proof (cases "fst (banUser dto now st) = Inr ()")
  case False
  then show ?thesis using banUser_rejects [of dto now st] by simp
next
  case True
  then obtain user where u: "users st (ban_userId dto) = Some user" and nb: "\<not> isBanned user"
    by (auto simp: banUser_def Let_def split: option.splits if_splits)
  have none: "getUserSocketIds (ban_userId dto) (disconnectUser (ban_userId dto) (sessions st)) = []"
    by (rule getUserSocketIds_disconnectUser [OF assms])
  show ?thesis
    using u nb none
    by (simp add: banUser_def Let_def emit_def banned_notices_def)
qed

text \<open>
  C7. Ann is known, not banned and has a live session on connection s1. \<open>banUser\<close>
  succeeds, and the only event emitted is the broadcast to the moderators: no termination
  notice goes to s1, the connection that held her session when the call was made.
\<close>

theorem banUser_sends_no_notice:
  "getUserSocketIds ''u1'' (sessions ann_online) = [''s1''] \<and>
   fst (banUser ban_ann 5 ann_online) = Inr () \<and>
   getUserSocketIds ''u1'' (sessions (snd (banUser ban_ann 5 ann_online))) = [] \<and>
   emitted (snd (banUser ban_ann 5 ann_online)) =
     [(ToAll, AdminUserBannedEvent ''u1'' (Some ''spam'') (Some ''admin'') 5)] \<and>
   banned_notices (snd (banUser ban_ann 5 ann_online)) = []"
proof -
  have sm: "sessions ann_online =
     \<lparr>userSessions = [(''s1'', ann_session)], userRooms = [''u1'' \<mapsto> ''r1''],
      roomUsers = [''r1'' \<mapsto> {''u1''}], roomMessageCounts = Map.empty,
      typingUsers = Map.empty, rateLimitMap = Map.empty\<rparr>"
    by (simp add: ann_online_def empty_app_def run_ops_def addUserToRoom_def
          removeUserFromAllRooms_def empty_sessions_def set_add_def ann_session_def Let_def)
  have rest: "users ann_online ''u1'' = Some ann" "serverSet ann_online" "emitted ann_online = []"
    by (simp_all add: ann_online_def empty_app_def)
  have d: "disconnectUser ''u1'' (sessions ann_online) =
     \<lparr>userSessions = [], userRooms = Map.empty,
      roomUsers = [''r1'' \<mapsto> {}], roomMessageCounts = Map.empty,
      typingUsers = Map.empty, rateLimitMap = Map.empty\<rparr>"
    by (simp add: sm disconnectUser_def removeUserFromRoom_def set_delete_def ann_session_def)
  have g: "getUserSocketIds ''u1'' (disconnectUser ''u1'' (sessions ann_online)) = []"
    by (simp add: d getUserSocketIds_def)
  have a1: "getUserSocketIds ''u1'' (sessions ann_online) = [''s1'']"
    by (simp add: sm getUserSocketIds_def ann_session_def)
  have s: "banUser ban_ann 5 ann_online =
     (Inr (), emit ToAll (AdminUserBannedEvent ''u1'' (Some ''spam'') (Some ''admin'') 5)
                (ann_online\<lparr>users := (users ann_online)(''u1'' \<mapsto>
                               ann\<lparr>isBanned := True, bannedReason := Some ''spam'',
                                   bannedAt := Some 5, bannedBy := Some ''admin''\<rparr>),
                            sessions := disconnectUser ''u1'' (sessions ann_online)\<rparr>))"
    by (simp add: banUser_def Let_def rest g ban_ann_def ann_def emit_frame)
  have a2: "fst (banUser ban_ann 5 ann_online) = Inr ()"
    by (simp add: s)
  have a3: "getUserSocketIds ''u1'' (sessions (snd (banUser ban_ann 5 ann_online))) = []"
    by (simp add: s emit_frame g)
  have a4: "emitted (snd (banUser ban_ann 5 ann_online)) =
     [(ToAll, AdminUserBannedEvent ''u1'' (Some ''spam'') (Some ''admin'') 5)]"
    by (simp add: s emit_def rest)
  have a5: "banned_notices (snd (banUser ban_ann 5 ann_online)) = []"
    by (simp add: banned_notices_def a4)
  show ?thesis
    using a1 a2 a3 a4 a5 by (intro conjI)
qed


end
